theory Spec2Isabelle
  imports Complex_Main "HOL-Library.AList"
begin

section \<open>Site validation (ui/src/utils/siteValidation.ts)\<close>

definition MIN_VERSION :: string where
  "MIN_VERSION = ''4.12.0''"

text \<open>
  \<^verbatim>\<open>a.split(".")\<close>: the pieces between the dots, in order. The empty string has
  one (empty) piece, and a trailing dot ends in an empty piece.
\<close>

fun split_dot :: "string \<Rightarrow> string list" where
  "split_dot [] = [[]]"
| "split_dot (c # cs) =
     (if c = CHR ''.'' then [] # split_dot cs
      else (case split_dot cs of
              [] \<Rightarrow> [[c]]
            | p # ps \<Rightarrow> (c # p) # ps))"

text \<open>
  \<^verbatim>\<open>partsA[i] || 0\<close>. A part is the host's \<^verbatim>\<open>Number(piece)\<close>: \<open>None\<close> stands
  for NaN, \<open>Some v\<close> for the number \<open>v\<close>. An index past the end reads
  \<^verbatim>\<open>undefined\<close>. Undefined, NaN and zero are all falsy, so each of them gives 0.
\<close>

definition part_or_zero :: "('n::{linorder,zero}) option list \<Rightarrow> nat \<Rightarrow> 'n" where
  "part_or_zero parts i =
     (if i < length parts then (case parts ! i of None \<Rightarrow> 0 | Some v \<Rightarrow> v) else 0)"

text \<open>The \<^verbatim>\<open>for\<close> loop of \<^verbatim>\<open>compareSemver\<close>, started at index \<open>i\<close>.\<close>

function compareSemver_loop ::
  "('n::{linorder,zero}) option list \<Rightarrow> 'n option list \<Rightarrow> nat \<Rightarrow> int" where
  "compareSemver_loop partsA partsB i =
     (if i < max (length partsA) (length partsB) then
        (let numA = part_or_zero partsA i;
             numB = part_or_zero partsB i
         in if numA < numB then - 1
            else if numA > numB then 1
            else compareSemver_loop partsA partsB (Suc i))
      else 0)"
  by pat_completeness auto
termination
  by (relation "measure (\<lambda>(partsA, partsB, i). max (length partsA) (length partsB) - i)") auto

declare compareSemver_loop.simps [simp del]

text \<open>
  \<^verbatim>\<open>compareSemver(a, b)\<close>. The host conversion \<^verbatim>\<open>Number\<close> is the parameter
  \<open>toNumber\<close>: it maps a piece to NaN (\<open>None\<close>) or to a number of a linearly ordered
  type.
\<close>

definition compareSemver ::
  "(string \<Rightarrow> ('n::{linorder,zero}) option) \<Rightarrow> string \<Rightarrow> string \<Rightarrow> int" where
  "compareSemver toNumber a b =
     compareSemver_loop (map toNumber (split_dot a)) (map toNumber (split_dot b)) 0"

text \<open>
  \<^verbatim>\<open>Number\<close> on the pieces of plain version strings: the empty piece is 0 and a piece
  of ASCII decimal digits is its value. Pieces of any other form (signs, exponents,
  radix prefixes, blanks), which the host converts as well, are outside this table and
  read as NaN here, and a value is kept exact where the host rounds it (above
  \<^verbatim>\<open>2^53\<close>). The laws of \<open>compareSemver\<close> below are proved for every conversion;
  this one only evaluates the examples, whose pieces are short digit strings.
\<close>

definition digit_val :: "char \<Rightarrow> int option" where
  "digit_val c =
     (let n = (of_char c :: nat)
      in if 48 \<le> n \<and> n \<le> 57 then Some (int n - 48) else None)"

fun digits_val :: "int \<Rightarrow> string \<Rightarrow> int option" where
  "digits_val acc [] = Some acc"
| "digits_val acc (c # cs) =
     (case digit_val c of None \<Rightarrow> None | Some d \<Rightarrow> digits_val (10 * acc + d) cs)"

definition Number_digits :: "string \<Rightarrow> int option" where
  "Number_digits s = digits_val 0 s"

text \<open>
  The doc comment of \<^verbatim>\<open>compareSemver\<close> (\<^verbatim>\<open>-1 if a < b, 0 if a == b, 1 if a > b\<close>)
  read on its own, to compare the loop with: the numeric components of a version, NaN
  counted as 0 and missing components filled with 0 up to \<open>n\<close> components, and two
  such lists of the same length compared component by component, the first difference
  deciding.
\<close>

definition zero_padded :: "nat \<Rightarrow> ('n::{linorder,zero}) option list \<Rightarrow> 'n list" where
  "zero_padded n parts =
     map (\<lambda>p. case p of None \<Rightarrow> 0 | Some v \<Rightarrow> v) parts @ replicate (n - length parts) 0"

fun compare_components :: "('n::linorder) list \<Rightarrow> 'n list \<Rightarrow> int" where
  "compare_components (x # xs) (y # ys) =
     (if x < y then - 1 else if y < x then 1 else compare_components xs ys)"
| "compare_components xs ys = 0"

text \<open>The \<^verbatim>\<open>PingResponse\<close> interface.\<close>

record PingResponse =
  code :: int
  data :: string
  msg :: string

datatype ValidationErrorType = httpError | apiError | versionTooLow | connectionFailed

record ValidationError =
  type :: ValidationErrorType
  params :: "(string \<times> string) list"

text \<open>
  What \<^verbatim>\<open>await response.json()\<close> does with the body: it resolves with the parsed
  payload, or rejects with the parser's error when the body is not JSON. A resolved
  payload is taken to have the shape the code declares for it (\<^verbatim>\<open>PingResponse\<close>); a
  body that parses to anything else is not covered.
\<close>

datatype json_outcome = JsonRejects string | JsonResolves PingResponse

text \<open>The fields of the host's \<^verbatim>\<open>Response\<close> that the function reads.\<close>

record Response =
  ok :: bool
  status :: nat
  json :: json_outcome

text \<open>
  The \<^verbatim>\<open>try\<close> block (building the URL and awaiting \<^verbatim>\<open>fetch\<close>): it throws, with
  the message computed in the \<^verbatim>\<open>catch\<close>, or it yields a response.
\<close>

datatype fetch_outcome = FetchThrows string | FetchResolves Response

text \<open>
  What the promise of \<^verbatim>\<open>validateSiteVersion\<close> rejects with: a \<^verbatim>\<open>ValidationError\<close>
  object thrown by the function, or an exception of the host that passes through it.
\<close>

datatype thrown = Validation ValidationError | HostException string

text \<open>\<^verbatim>\<open>String(n)\<close> for a non-negative integer: its decimal digits.\<close>

function String_nat :: "nat \<Rightarrow> string" where
  "String_nat n =
     (if n < 10 then [char_of (48 + n)]
      else String_nat (n div 10) @ [char_of (48 + n mod 10)])"
  by pat_completeness auto
termination
  by (relation "measure (\<lambda>n. n)") auto

declare String_nat.simps [simp del]

text \<open>\<^verbatim>\<open>s.replace(/-pro$/, "")\<close>: one \<^verbatim>\<open>-pro\<close> at the very end is removed.\<close>

definition strip_pro :: "string \<Rightarrow> string" where
  "strip_pro s =
     (if 4 \<le> length s \<and> drop (length s - 4) s = ''-pro''
      then take (length s - 4) s else s)"

text \<open>
  \<^verbatim>\<open>validateSiteVersion(siteUrl)\<close>. The network is the parameter \<open>ping\<close>: what the
  \<^verbatim>\<open>try\<close> block yields for a site URL. \<open>Inl\<close> is a rejected promise, \<open>Inr\<close> the
  version it resolves with.
\<close>

definition validateSiteVersion ::
  "(string \<Rightarrow> ('n::{linorder,zero}) option) \<Rightarrow> (string \<Rightarrow> fetch_outcome) \<Rightarrow> string
     \<Rightarrow> thrown + string" where
  "validateSiteVersion toNumber ping siteUrl =
     (case ping siteUrl of
        FetchThrows message \<Rightarrow>
          Inl (Validation \<lparr>type = connectionFailed, params = [(''message'', message)]\<rparr>)
      | FetchResolves response \<Rightarrow>
          if \<not> ok response then
            Inl (Validation \<lparr>type = httpError,
                             params = [(''status'', String_nat (status response))]\<rparr>)
          else
            (case json response of
               JsonRejects e \<Rightarrow> Inl (HostException e)
             | JsonResolves d \<Rightarrow>
                 if code d \<noteq> 0 then
                   Inl (Validation \<lparr>type = apiError,
                          params = [(''message'',
                                     if msg d = [] then ''Unknown error'' else msg d)]\<rparr>)
                 else
                   (let version = strip_pro (data d)
                    in if compareSemver toNumber version MIN_VERSION < 0 then
                         Inl (Validation \<lparr>type = versionTooLow,
                                params = [(''version'', version),
                                          (''minVersion'', MIN_VERSION)]\<rparr>)
                       else Inr version)))"

section \<open>HTTP fetch wrapper (ui/src/utils/fetch.ts)\<close>

text \<open>
  The host's \<^verbatim>\<open>Headers\<close> class: a list of (name, value) pairs in insertion order,
  with names matched without regard to ASCII case (they are kept in lower case) and at
  most one entry per name. Names and values are taken as valid and already trimmed.
\<close>

type_synonym Headers = "(string \<times> string) list"

definition lower_char :: "char \<Rightarrow> char" where
  "lower_char c =
     (let n = (of_char c :: nat) in if 65 \<le> n \<and> n \<le> 90 then char_of (n + 32) else c)"

definition header_name :: "string \<Rightarrow> string" where
  "header_name name = map lower_char name"

definition Headers_has :: "Headers \<Rightarrow> string \<Rightarrow> bool" where
  "Headers_has h name = (map_of h (header_name name) \<noteq> None)"

definition Headers_get :: "Headers \<Rightarrow> string \<Rightarrow> string option" where
  "Headers_get h name = map_of h (header_name name)"

definition Headers_set :: "Headers \<Rightarrow> string \<Rightarrow> string \<Rightarrow> Headers" where
  "Headers_set h name v = AList.update (header_name name) v h"

text \<open>\<^verbatim>\<open>append\<close> joins the values of a repeated name with a comma and a space.\<close>

definition Headers_append :: "Headers \<Rightarrow> string \<Rightarrow> string \<Rightarrow> Headers" where
  "Headers_append h name v =
     (case map_of h (header_name name) of
        None \<Rightarrow> h @ [(header_name name, v)]
      | Some old \<Rightarrow> AList.update (header_name name) (old @ '', '' @ v) h)"

text \<open>
  \<^verbatim>\<open>new Headers(init)\<close>: \<^verbatim>\<open>undefined\<close> gives no headers; a sequence of pairs (or a
  record, or another \<^verbatim>\<open>Headers\<close>, read as its pairs) is appended in order.
\<close>

definition Headers_new :: "(string \<times> string) list option \<Rightarrow> Headers" where
  "Headers_new init =
     (case init of
        None \<Rightarrow> []
      | Some pairs \<Rightarrow> fold (\<lambda>(name, v) h. Headers_append h name v) pairs [])"

text \<open>
  The \<^verbatim>\<open>init\<close> object: its \<^verbatim>\<open>headers\<close> property and every other property, by
  name. The caller's \<^verbatim>\<open>headers\<close> may be absent; the object handed to the underlying
  fetch carries a \<^verbatim>\<open>Headers\<close> value.
\<close>

record ('h, 'v) RequestInit =
  headers :: 'h
  rest :: "string \<rightharpoonup> 'v"

text \<open>
  \<^verbatim>\<open>getUserAgent()\<close> with the module variable \<^verbatim>\<open>userAgentCache\<close> passed in and
  returned; \<open>version\<close> is what \<^verbatim>\<open>getVersion()\<close> resolves with. A cached empty
  string is falsy and is computed again.
\<close>

definition getUserAgent :: "string \<Rightarrow> string option \<Rightarrow> string \<times> string option" where
  "getUserAgent version userAgentCache =
     (case userAgentCache of
        Some cached \<Rightarrow>
          if cached \<noteq> [] then (cached, userAgentCache)
          else (''cloudreve-desktop/'' @ version, Some (''cloudreve-desktop/'' @ version))
      | None \<Rightarrow> (''cloudreve-desktop/'' @ version, Some (''cloudreve-desktop/'' @ version)))"

text \<open>
  \<^verbatim>\<open>fetch(input, init)\<close>: the new cache, and the two arguments of the call to the
  underlying \<^verbatim>\<open>tauriFetch\<close> (whose promise the wrapper returns as it is).
\<close>

definition fetch ::
  "string \<Rightarrow> string option \<Rightarrow> 'i \<Rightarrow> ((string \<times> string) list option, 'v) RequestInit option
     \<Rightarrow> string option \<times> 'i \<times> (Headers, 'v) RequestInit" where
  "fetch version userAgentCache input init =
     (let (userAgent, cache') = getUserAgent version userAgentCache;
          headers0 = Headers_new (case init of None \<Rightarrow> None | Some i \<Rightarrow> headers i);
          headers1 = (if \<not> Headers_has headers0 ''User-Agent''
                      then Headers_set headers0 ''User-Agent'' userAgent
                      else headers0)
      in (cache', input,
          \<lparr>headers = headers1,
           rest = (case init of None \<Rightarrow> Map.empty | Some i \<Rightarrow> rest i)\<rparr>))"

section \<open>Sync direction toggle (ui/src/pages/settings/DrivesSection.tsx)\<close>

text \<open>
  Modelled from the spec: the two sync directions of a drive. The type itself belongs
  to the sync engine, whose code is not among the sources.
\<close>

datatype sync_direction = TwoWay | OneWayUpload

text \<open>
  Modelled from the spec: the name of each direction in the commands
  \<^verbatim>\<open>get_sync_direction\<close> and \<^verbatim>\<open>set_sync_direction\<close>, which are the two strings the
  page sends.
\<close>

fun direction_name :: "sync_direction \<Rightarrow> string" where
  "direction_name TwoWay = ''two_way''"
| "direction_name OneWayUpload = ''one_way_upload''"

text \<open>
  The component state \<^verbatim>\<open>syncDirections\<close> (a \<^verbatim>\<open>Record<string, string>\<close>), together
  with the log of the \<^verbatim>\<open>set_sync_direction\<close> commands the page has invoked, each with
  its \<^verbatim>\<open>driveId\<close> and \<^verbatim>\<open>direction\<close>.
\<close>

record DrivesSection =
  syncDirections :: "string \<rightharpoonup> string"
  invoked :: "(string \<times> string) list"

text \<open>\<^verbatim>\<open>checked ? "one_way_upload" : "two_way"\<close>\<close>

definition newDirection :: "bool \<Rightarrow> string" where
  "newDirection checked = (if checked then ''one_way_upload'' else ''two_way'')"

text \<open>
  \<^verbatim>\<open>syncDirections[driveId] || "two_way"\<close>: a missing entry and the empty string are
  falsy.
\<close>

definition previousDirection :: "(string \<rightharpoonup> string) \<Rightarrow> string \<Rightarrow> string" where
  "previousDirection dirs driveId =
     (case dirs driveId of
        None \<Rightarrow> ''two_way''
      | Some d \<Rightarrow> if d = [] then ''two_way'' else d)"

text \<open>
  The switch of a drive: \<^verbatim>\<open>checked={syncDirections[drive.id] === "one_way_upload"}\<close>,
  and the direction it stands for.
\<close>

definition switch_checked :: "(string \<rightharpoonup> string) \<Rightarrow> string \<Rightarrow> bool" where
  "switch_checked dirs driveId = (dirs driveId = Some ''one_way_upload'')"

definition displayed_direction :: "(string \<rightharpoonup> string) \<Rightarrow> string \<Rightarrow> sync_direction" where
  "displayed_direction dirs driveId =
     (if switch_checked dirs driveId then OneWayUpload else TwoWay)"

text \<open>
  \<^verbatim>\<open>handleSyncDirectionChange(driveId, checked)\<close>. The engine is the parameter
  \<open>set_sync_direction\<close>: whether the command succeeds for a drive and a direction.
  The state is updated optimistically, the command is invoked, and a failure puts the
  previous direction back.
\<close>

definition handleSyncDirectionChange ::
  "(string \<Rightarrow> string \<Rightarrow> bool) \<Rightarrow> DrivesSection \<Rightarrow> string \<Rightarrow> bool \<Rightarrow> DrivesSection" where
  "handleSyncDirectionChange set_sync_direction st driveId checked =
     (let direction = newDirection checked;
          previous = previousDirection (syncDirections st) driveId;
          st1 = st\<lparr>syncDirections := (syncDirections st)(driveId \<mapsto> direction)\<rparr>;
          st2 = st1\<lparr>invoked := invoked st1 @ [(driveId, direction)]\<rparr>
      in if set_sync_direction driveId direction then st2
         else st2\<lparr>syncDirections := (syncDirections st2)(driveId \<mapsto> previous)\<rparr>)"

section \<open>Durable schema (migrations/inventory)\<close>

text \<open>
  The tables of the migrations are modelled with the part of SQL their statements
  use: typed columns with \<^verbatim>\<open>NOT NULL\<close>, \<^verbatim>\<open>PRIMARY KEY\<close>, \<^verbatim>\<open>UNIQUE\<close>,
  \<^verbatim>\<open>AUTOINCREMENT\<close> and \<^verbatim>\<open>DEFAULT\<close>, and single-table indexes. A stored row maps a
  column name to its value; \<open>None\<close> is \<^verbatim>\<open>NULL\<close>.
\<close>

datatype sql_type = TEXT | INTEGER

datatype sql_value = Text string | Integer int

record column =
  col_name :: string
  col_type :: sql_type
  not_null :: bool
  primary_key :: bool
  unique_key :: bool
  autoincrement :: bool
  default_value :: "sql_value option"

record sql_index =
  index_name :: string
  index_table :: string
  index_columns :: "string list"

text \<open>A column declared with a name, a type and possibly \<^verbatim>\<open>NOT NULL\<close>, and nothing else.\<close>

definition plain :: "string \<Rightarrow> sql_type \<Rightarrow> bool \<Rightarrow> column" where
  "plain n t nn =
     \<lparr>col_name = n, col_type = t, not_null = nn, primary_key = False, unique_key = False,
      autoincrement = False, default_value = None\<rparr>"

text \<open>\<^verbatim>\<open>0003_create_upload_sessions/up.sql\<close>: \<^verbatim>\<open>CREATE TABLE upload_sessions\<close>.\<close>

definition upload_sessions :: "column list" where
  "upload_sessions =
     [(plain ''id'' TEXT True)\<lparr>primary_key := True\<rparr>,
      plain ''task_id'' TEXT True,
      plain ''drive_id'' TEXT True,
      plain ''local_path'' TEXT True,
      plain ''remote_uri'' TEXT True,
      plain ''file_size'' INTEGER True,
      plain ''chunk_size'' INTEGER True,
      plain ''policy_type'' TEXT True,
      plain ''session_data'' TEXT True,
      (plain ''chunk_progress'' TEXT True)\<lparr>default_value := Some (Text ''[]'')\<rparr>,
      plain ''encrypt_metadata'' TEXT False,
      plain ''expires_at'' INTEGER True,
      plain ''created_at'' INTEGER True,
      plain ''updated_at'' INTEGER True]"

text \<open>The three \<^verbatim>\<open>CREATE INDEX\<close> statements of the same migration.\<close>

definition upload_sessions_indexes :: "sql_index list" where
  "upload_sessions_indexes =
     [\<lparr>index_name = ''idx_upload_sessions_task_id'', index_table = ''upload_sessions'',
       index_columns = [''task_id'']\<rparr>,
      \<lparr>index_name = ''idx_upload_sessions_drive_id'', index_table = ''upload_sessions'',
       index_columns = [''drive_id'']\<rparr>,
      \<lparr>index_name = ''idx_upload_sessions_local_path'', index_table = ''upload_sessions'',
       index_columns = [''local_path'']\<rparr>]"

text \<open>\<^verbatim>\<open>0004_create_drive_props/up.sql\<close>: \<^verbatim>\<open>CREATE TABLE drive_props\<close> and its index.\<close>

definition drive_props :: "column list" where
  "drive_props =
     [(plain ''id'' INTEGER True)\<lparr>primary_key := True, autoincrement := True\<rparr>,
      (plain ''drive_id'' TEXT True)\<lparr>unique_key := True\<rparr>,
      plain ''capacity'' TEXT False,
      plain ''capacity_updated_at'' INTEGER False,
      plain ''storage_policies'' TEXT False,
      plain ''storage_policies_updated_at'' INTEGER False,
      plain ''user_settings'' TEXT False,
      plain ''user_settings_updated_at'' INTEGER False,
      plain ''created_at'' INTEGER True,
      plain ''updated_at'' INTEGER True]"

definition drive_props_indexes :: "sql_index list" where
  "drive_props_indexes =
     [\<lparr>index_name = ''idx_drive_props_drive_id'', index_table = ''drive_props'',
       index_columns = [''drive_id'']\<rparr>]"

subsection \<open>Rows, tables and the statements that change them\<close>

type_synonym row = "string \<rightharpoonup> sql_value"

text \<open>
  A table: its rows in insertion order, and the largest row id handed out so far (what
  \<^verbatim>\<open>AUTOINCREMENT\<close> remembers).
\<close>

record table =
  rows :: "row list"
  last_rowid :: int

definition empty_table :: table where
  "empty_table = \<lparr>rows = [], last_rowid = 0\<rparr>"

datatype sql_error = NoSuchColumn | NotNullViolation | UniqueViolation

definition column_names :: "column list \<Rightarrow> string list" where
  "column_names cols = map col_name cols"

definition nullable_columns :: "column list \<Rightarrow> string list" where
  "nullable_columns cols = map col_name (filter (\<lambda>c. \<not> not_null c) cols)"

text \<open>
  The key columns: \<^verbatim>\<open>PRIMARY KEY\<close> and \<^verbatim>\<open>UNIQUE\<close> both forbid two rows with the same
  non-null value.
\<close>

definition key_columns :: "column list \<Rightarrow> string list" where
  "key_columns cols = map col_name (filter (\<lambda>c. primary_key c \<or> unique_key c) cols)"

text \<open>The next row id of an \<^verbatim>\<open>AUTOINCREMENT\<close> column: above every id used so far.\<close>

definition next_rowid :: "table \<Rightarrow> int" where
  "next_rowid t = last_rowid t + 1"

text \<open>
  The row an \<^verbatim>\<open>INSERT\<close> stores for the supplied (column, value) pairs, where a
  supplied value may be \<^verbatim>\<open>NULL\<close>: a column left out takes its \<^verbatim>\<open>DEFAULT\<close>, and a null
  \<^verbatim>\<open>AUTOINCREMENT\<close> key takes the next row id.
\<close>

definition column_value ::
  "table \<Rightarrow> (string \<times> sql_value option) list \<Rightarrow> column \<Rightarrow> sql_value option" where
  "column_value t supplied c =
     (let given = (case map_of supplied (col_name c) of
                     None \<Rightarrow> default_value c
                   | Some v \<Rightarrow> v)
      in if given = None \<and> autoincrement c then Some (Integer (next_rowid t)) else given)"

definition stored_row :: "column list \<Rightarrow> table \<Rightarrow> (string \<times> sql_value option) list \<Rightarrow> row" where
  "stored_row cols t supplied =
     (\<lambda>n. case find (\<lambda>c. col_name c = n) cols of
            None \<Rightarrow> None
          | Some c \<Rightarrow> column_value t supplied c)"

text \<open>The row id counter after a row is stored: it follows the largest key it has seen.\<close>

definition rowid_after :: "column list \<Rightarrow> table \<Rightarrow> row \<Rightarrow> int" where
  "rowid_after cols t r =
     fold (\<lambda>c acc. if autoincrement c
                    then (case r (col_name c) of Some (Integer i) \<Rightarrow> max acc i | _ \<Rightarrow> acc)
                    else acc)
          cols (last_rowid t)"

text \<open>
  \<^verbatim>\<open>INSERT INTO t (columns) VALUES (values)\<close>: refused for an unknown column, for a
  null in a \<^verbatim>\<open>NOT NULL\<close> column, and for a key value some row already has.
\<close>

definition sql_insert ::
  "column list \<Rightarrow> (string \<times> sql_value option) list \<Rightarrow> table \<Rightarrow> sql_error + table" where
  "sql_insert cols supplied t =
     (if \<not> list_all (\<lambda>(n, v). n \<in> set (column_names cols)) supplied then Inl NoSuchColumn
      else
        (let r = stored_row cols t supplied
         in if list_ex (\<lambda>c. not_null c \<and> r (col_name c) = None) cols
              then Inl NotNullViolation
            else if list_ex (\<lambda>k. r k \<noteq> None \<and> list_ex (\<lambda>r'. r' k = r k) (rows t))
                      (key_columns cols)
              then Inl UniqueViolation
            else Inr \<lparr>rows = rows t @ [r], last_rowid = rowid_after cols t r\<rparr>))"

text \<open>The \<^verbatim>\<open>SET\<close> list of an \<^verbatim>\<open>UPDATE\<close> applied to one row, left to right.\<close>

definition assign :: "(string \<times> sql_value option) list \<Rightarrow> row \<Rightarrow> row" where
  "assign assignments r = fold (\<lambda>(n, v) r'. r'(n := v)) assignments r"

text \<open>
  \<^verbatim>\<open>UPDATE t SET assignments WHERE c = v\<close>: every row whose column \<open>c\<close> holds \<open>v\<close> is
  assigned; the statement is refused, and the table left as it was, when a column is
  unknown or the rows it would leave break \<^verbatim>\<open>NOT NULL\<close> or a key.
\<close>

definition sql_update ::
  "column list \<Rightarrow> (string \<times> sql_value option) list \<Rightarrow> string \<Rightarrow> sql_value \<Rightarrow> table
     \<Rightarrow> sql_error + table" where
  "sql_update cols assignments c v t =
     (if \<not> list_all (\<lambda>(n, x). n \<in> set (column_names cols)) assignments
         \<or> c \<notin> set (column_names cols) then Inl NoSuchColumn
      else
        (let rows' = map (\<lambda>r. if r c = Some v then assign assignments r else r) (rows t)
         in if list_ex (\<lambda>r. list_ex (\<lambda>cl. not_null cl \<and> r (col_name cl) = None) cols) rows'
              then Inl NotNullViolation
            else if list_ex (\<lambda>k. \<not> distinct (filter (\<lambda>x. x \<noteq> None) (map (\<lambda>r. r k) rows')))
                      (key_columns cols)
              then Inl UniqueViolation
            else Inr (t\<lparr>rows := rows'\<rparr>)))"

text \<open>\<^verbatim>\<open>DELETE FROM t WHERE c = v\<close>\<close>

definition sql_delete :: "string \<Rightarrow> sql_value \<Rightarrow> table \<Rightarrow> table" where
  "sql_delete c v t = t\<lparr>rows := filter (\<lambda>r. r c \<noteq> Some v) (rows t)\<rparr>"

text \<open>The tables a schema can hold: what the three statements build from the empty table.\<close>

inductive reachable :: "column list \<Rightarrow> table \<Rightarrow> bool" for cols :: "column list" where
  reachable_empty: "reachable cols empty_table"
| reachable_insert:
    "reachable cols t \<Longrightarrow> sql_insert cols supplied t = Inr t' \<Longrightarrow> reachable cols t'"
| reachable_update:
    "reachable cols t \<Longrightarrow> sql_update cols assignments c v t = Inr t' \<Longrightarrow> reachable cols t'"
| reachable_delete:
    "reachable cols t \<Longrightarrow> reachable cols (sql_delete c v t)"

text \<open>The rows of a table that hold value \<open>v\<close> in column \<open>c\<close>.\<close>

definition rows_with :: "string \<Rightarrow> sql_value \<Rightarrow> table \<Rightarrow> row list" where
  "rows_with c v t = filter (\<lambda>r. r c = Some v) (rows t)"

text \<open>
  What the statements maintain: no null in a \<^verbatim>\<open>NOT NULL\<close> column, and no key value
  in two rows.
\<close>

definition not_null_ok :: "column list \<Rightarrow> table \<Rightarrow> bool" where
  "not_null_ok cols t =
     list_all (\<lambda>r. list_all (\<lambda>c. \<not> (not_null c \<and> r (col_name c) = None)) cols) (rows t)"

definition keys_ok :: "column list \<Rightarrow> table \<Rightarrow> bool" where
  "keys_ok cols t =
     list_all (\<lambda>k. distinct (filter (\<lambda>x. x \<noteq> None) (map (\<lambda>r. r k) (rows t))))
       (key_columns cols)"

section \<open>Transfer Session Store\<close>

text \<open>
  One entry of the progress list, as the schema's comment on \<^verbatim>\<open>chunk_progress\<close>
  gives it: \<^verbatim>\<open>{"index": 0, "loaded": 1024, "etag": "abc"}\<close>.
\<close>

record ChunkProgress =
  index :: nat
  loaded :: nat
  etag :: string

text \<open>
  A row of \<^verbatim>\<open>upload_sessions\<close> as a typed record, one field per column (the key
  column \<^verbatim>\<open>id\<close> is the field \<open>session_id\<close>).
\<close>

record UploadSession =
  session_id :: string
  task_id :: string
  drive_id :: string
  local_path :: string
  remote_uri :: string
  file_size :: int
  chunk_size :: int
  policy_type :: string
  session_data :: string
  chunk_progress :: "ChunkProgress list"
  encrypt_metadata :: "string option"
  expires_at :: int
  created_at :: int
  updated_at :: int

text \<open>
  The values an \<^verbatim>\<open>INSERT\<close> of a session supplies, column by column; \<open>encode\<close> is
  the JSON serialisation of the progress list.
\<close>

definition session_values ::
  "(ChunkProgress list \<Rightarrow> string) \<Rightarrow> UploadSession \<Rightarrow> (string \<times> sql_value option) list" where
  "session_values encode s =
     [(''id'', Some (Text (session_id s))),
      (''task_id'', Some (Text (task_id s))),
      (''drive_id'', Some (Text (drive_id s))),
      (''local_path'', Some (Text (local_path s))),
      (''remote_uri'', Some (Text (remote_uri s))),
      (''file_size'', Some (Integer (file_size s))),
      (''chunk_size'', Some (Integer (chunk_size s))),
      (''policy_type'', Some (Text (policy_type s))),
      (''session_data'', Some (Text (session_data s))),
      (''chunk_progress'', Some (Text (encode (chunk_progress s)))),
      (''encrypt_metadata'', map_option Text (encrypt_metadata s)),
      (''expires_at'', Some (Integer (expires_at s))),
      (''created_at'', Some (Integer (created_at s))),
      (''updated_at'', Some (Integer (updated_at s)))]"

subsection \<open>Operations of the store\<close>

text \<open>
  The code of the store is not among the sources; only the table it writes is. The
  spec gives a session this life: created when a transfer begins chunking, updated
  after every acknowledged chunk, deleted on completion or cancellation, and past
  \<^verbatim>\<open>expires_at\<close> treated as abandoned, so that a resume attempt starts a fresh session
  instead.
\<close>

text \<open>
  Modelled from the spec: the missing liveness test of the store. A session is live
  until the clock is past \<^verbatim>\<open>expires_at\<close>.
\<close>

definition live :: "int \<Rightarrow> UploadSession \<Rightarrow> bool" where
  "live now s = (now \<le> expires_at s)"

text \<open>
  Modelled from the spec: the missing lookup of the store, the live sessions of a drive
  and local path.
\<close>

definition live_sessions :: "int \<Rightarrow> string \<Rightarrow> string \<Rightarrow> UploadSession list \<Rightarrow> UploadSession list" where
  "live_sessions now d p store =
     filter (\<lambda>s. drive_id s = d \<and> local_path s = p \<and> live now s) store"

text \<open>
  Modelled from the spec: what beginning a transfer yields, a resumed session or a
  newly created one.
\<close>

datatype begun = Resumed UploadSession | Created UploadSession

text \<open>
  Modelled from the spec: the one failure of storing a session row, a primary key that
  is already taken.
\<close>

datatype session_error = DuplicateSessionId

text \<open>
  Modelled from the spec: the missing operation that begins the transfer of a path. A live session of the
  drive and path is resumed and no row is written. Otherwise the transfer is new (any
  session of the path is expired and stays abandoned): its session row is stored, which
  the table refuses when the primary key \<^verbatim>\<open>id\<close> is taken.
\<close>

definition begin_transfer ::
  "int \<Rightarrow> UploadSession \<Rightarrow> UploadSession list \<Rightarrow> session_error + begun \<times> UploadSession list" where
  "begin_transfer now fresh store =
     (case live_sessions now (drive_id fresh) (local_path fresh) store of
        s # _ \<Rightarrow> Inr (Resumed s, store)
      | [] \<Rightarrow>
          if session_id fresh \<in> set (map session_id store) then Inl DuplicateSessionId
          else Inr (Created fresh, store @ [fresh]))"

text \<open>
  Modelled from the spec: the missing progress update. After an acknowledged chunk the session's progress and
  \<^verbatim>\<open>updated_at\<close> are written.
\<close>

definition acknowledge_chunk ::
  "int \<Rightarrow> string \<Rightarrow> ChunkProgress \<Rightarrow> UploadSession list \<Rightarrow> UploadSession list" where
  "acknowledge_chunk now sid entry store =
     map (\<lambda>s. if session_id s = sid
              then s\<lparr>chunk_progress := chunk_progress s @ [entry], updated_at := now\<rparr>
              else s) store"

text \<open>
  Modelled from the spec: the missing removal. The session row is deleted on successful completion and on
  explicit cancellation.
\<close>

definition delete_session :: "string \<Rightarrow> UploadSession list \<Rightarrow> UploadSession list" where
  "delete_session sid store = filter (\<lambda>s. session_id s \<noteq> sid) store"

text \<open>
  Modelled from the spec: the states the missing store can reach, paired with the clock. The clock
  never runs backwards; every other step is one of the operations above.
\<close>

inductive store_reachable :: "int \<Rightarrow> UploadSession list \<Rightarrow> bool" where
  store_empty: "store_reachable now []"
| store_tick: "store_reachable now store \<Longrightarrow> now \<le> later \<Longrightarrow> store_reachable later store"
| store_begin:
    "store_reachable now store \<Longrightarrow> begin_transfer now fresh store = Inr (b, store') \<Longrightarrow>
     store_reachable now store'"
| store_acknowledge:
    "store_reachable now store \<Longrightarrow> store_reachable now (acknowledge_chunk now sid entry store)"
| store_delete:
    "store_reachable now store \<Longrightarrow> store_reachable now (delete_session sid store)"

section \<open>Conflict state of a file metadata record\<close>

text \<open>
  The values of the column \<^verbatim>\<open>file_metadata.conflict_state\<close>, as the migration that
  adds it lists them: \<^verbatim>\<open>NULL\<close> (no conflict), \<^verbatim>\<open>'pending'\<close> and \<^verbatim>\<open>'override'\<close>.
\<close>

datatype conflict_state = NoConflict | Pending | Override

fun conflict_state_column :: "conflict_state \<Rightarrow> string option" where
  "conflict_state_column NoConflict = None"
| "conflict_state_column Pending = Some ''pending''"
| "conflict_state_column Override = Some ''override''"

text \<open>
  Modelled from the spec: the events that write the conflict state. The code that
  handles them (the Conflict Resolver and the Transfer Executor) is not among the
  sources.
  \<^item> A reconciliation cycle classifies the path from whether the local and the remote
    copy changed since the last recorded sync.
  \<^item> The user explicitly overrides a conflict (local content wins).
  \<^item> An upload of the path succeeds.
\<close>

datatype conflict_event = Reconcile bool bool | ExplicitOverride | UploadSucceeded

text \<open>
  Modelled from the spec: the missing state change of each event.
  \<^item> when both copies changed, the state becomes \<open>Pending\<close> and stays so; a pending
    conflict whose divergence is gone at a re-sync is resolved;
  \<^item> an explicit override of a pending conflict sets \<open>Override\<close>, which causes one
    upload whatever the remote state is, so a cycle leaves \<open>Override\<close> alone;
  \<^item> after the upload of an override succeeds the record returns to no conflict.
  Nothing else writes the state.
\<close>

fun conflict_step :: "conflict_event \<Rightarrow> conflict_state \<Rightarrow> conflict_state" where
  "conflict_step (Reconcile local_changed remote_changed) NoConflict =
     (if local_changed \<and> remote_changed then Pending else NoConflict)"
| "conflict_step (Reconcile local_changed remote_changed) Pending =
     (if local_changed \<and> remote_changed then Pending else NoConflict)"
| "conflict_step (Reconcile local_changed remote_changed) Override = Override"
| "conflict_step ExplicitOverride Pending = Override"
| "conflict_step ExplicitOverride s = s"
| "conflict_step UploadSucceeded Override = NoConflict"
| "conflict_step UploadSucceeded s = s"

text \<open>
  Modelled from the spec: the three transitions the data model of the spec lists for
  the missing operations.
\<close>

definition listed_transitions :: "(conflict_state \<times> conflict_state) set" where
  "listed_transitions = {(NoConflict, Pending), (Pending, Override), (Pending, NoConflict)}"

text \<open>
  Modelled from the spec: the same three and the return from \<open>Override\<close> to no
  conflict, which the spec's Conflict Resolver performs after the override's upload.
\<close>

definition resolver_transitions :: "(conflict_state \<times> conflict_state) set" where
  "resolver_transitions = insert (Override, NoConflict) listed_transitions"

section \<open>Drive Registry\<close>

text \<open>
  The code of the registry (\<^verbatim>\<open>drive/mod.rs\<close>) is not among the sources;
  ARCHITECTURE.md describes it.
\<close>

text \<open>Modelled from the spec: the status of a drive, a type of the missing registry.\<close>

datatype drive_status = Active | EventPushLost | CredentialExpired

text \<open>
  Modelled from the spec: the configuration of a drive (identity and policy of one
  configured remote), a type of the missing registry. The field \<open>config_id\<close> is the
  immutable id.
\<close>

record DriveConfig =
  config_id :: string
  name :: string
  instance_url :: string
  local_root :: string
  remote_root :: string
  direction :: sync_direction
  enabled :: bool
  drive_status :: drive_status
  credential :: string

text \<open>
  The \<^verbatim>\<open>Event\<close> enum of ARCHITECTURE.md, with the fields of each variant in order.
  The \<^verbatim>\<open>f32\<close> progress is a real number here and the JSON payload a string.
\<close>

datatype Event =
    DriveAdded string string
  | DriveRemoved string
  | DriveUpdated string
  | SyncStarted string
  | SyncCompleted string nat
  | SyncProgress string real string
  | SyncError string string
  | FileUploaded string string
  | FileDownloaded string string
  | ConnectionStatusChanged bool
  | Custom string string

text \<open>
  Modelled from the spec: the failures of the missing registry's mutations.
  (ARCHITECTURE.md lists only the errors of the HTTP layer: \<^verbatim>\<open>NotFound\<close>,
  \<^verbatim>\<open>BadRequest\<close>, \<^verbatim>\<open>Internal\<close>.) \<open>PersistFailed\<close> is a write to durable storage
  that fails.
\<close>

datatype registry_error = AlreadyExists | NotFound | PersistFailed

text \<open>
  Modelled from the spec: the state of the missing registry, which is the
  configurations in memory, the set last written to durable storage
  (\<^verbatim>\<open>drives.json\<close>), and the events broadcast so far.
\<close>

record DriveRegistry =
  configs :: "DriveConfig list"
  durable :: "DriveConfig list"
  events :: "Event list"

text \<open>Modelled from the spec: whether the missing registry holds an id.\<close>

definition has_drive :: "DriveRegistry \<Rightarrow> string \<Rightarrow> bool" where
  "has_drive reg i = (i \<in> set (map config_id (configs reg)))"

text \<open>
  Modelled from the spec: the missing \<^verbatim>\<open>persist()\<close>, which writes the full
  configuration set. The storage is the parameter
  \<open>writable\<close>: whether writing a given set succeeds.
\<close>

definition persist ::
  "(DriveConfig list \<Rightarrow> bool) \<Rightarrow> DriveRegistry \<Rightarrow> registry_error + DriveRegistry" where
  "persist writable reg =
     (if writable (configs reg) then Inr (reg\<lparr>durable := configs reg\<rparr>)
      else Inl PersistFailed)"

text \<open>Modelled from the spec: the missing broadcast of an event to the subscribers.\<close>

definition broadcast :: "Event \<Rightarrow> DriveRegistry \<Rightarrow> DriveRegistry" where
  "broadcast e reg = reg\<lparr>events := events reg @ [e]\<rparr>"

text \<open>
  Modelled from the spec: the missing \<^verbatim>\<open>add\<close>, in the order ARCHITECTURE.md gives for adding a
  drive: the in-memory state is updated, \<^verbatim>\<open>persist()\<close> saves it, the event is sent,
  and then the caller gets its answer. A duplicate id fails before anything is changed.
  Each mutation returns its result and the registry it leaves.
\<close>

definition add_drive ::
  "(DriveConfig list \<Rightarrow> bool) \<Rightarrow> DriveConfig \<Rightarrow> DriveRegistry
     \<Rightarrow> (registry_error + string) \<times> DriveRegistry" where
  "add_drive writable config reg =
     (if has_drive reg (config_id config) then (Inl AlreadyExists, reg)
      else
        (let reg1 = reg\<lparr>configs := configs reg @ [config]\<rparr>
         in case persist writable reg1 of
              Inl e \<Rightarrow> (Inl e, reg1)
            | Inr reg2 \<Rightarrow>
                (Inr (config_id config),
                 broadcast (DriveAdded (config_id config) (name config)) reg2)))"

text \<open>
  Modelled from the spec: the missing \<^verbatim>\<open>update\<close>, which replaces the
  configuration stored under an id (the id itself is immutable); an unknown id fails
  before anything is changed.
\<close>

definition update_drive ::
  "(DriveConfig list \<Rightarrow> bool) \<Rightarrow> string \<Rightarrow> DriveConfig \<Rightarrow> DriveRegistry
     \<Rightarrow> (registry_error + unit) \<times> DriveRegistry" where
  "update_drive writable i config reg =
     (if \<not> has_drive reg i then (Inl NotFound, reg)
      else
        (let reg1 = reg\<lparr>configs :=
                     map (\<lambda>c. if config_id c = i then config\<lparr>config_id := i\<rparr> else c)
                         (configs reg)\<rparr>
         in case persist writable reg1 of
              Inl e \<Rightarrow> (Inl e, reg1)
            | Inr reg2 \<Rightarrow> (Inr (), broadcast (DriveUpdated i) reg2)))"

text \<open>
  Modelled from the spec: the missing \<^verbatim>\<open>remove\<close>, which takes the configuration
  of an id out of the set and returns it; an unknown id fails before anything is
  changed.
\<close>

definition remove_drive ::
  "(DriveConfig list \<Rightarrow> bool) \<Rightarrow> string \<Rightarrow> DriveRegistry
     \<Rightarrow> (registry_error + DriveConfig option) \<times> DriveRegistry" where
  "remove_drive writable i reg =
     (if \<not> has_drive reg i then (Inl NotFound, reg)
      else
        (let reg1 = reg\<lparr>configs := filter (\<lambda>c. config_id c \<noteq> i) (configs reg)\<rparr>
         in case persist writable reg1 of
              Inl e \<Rightarrow> (Inl e, reg1)
            | Inr reg2 \<Rightarrow>
                (Inr (find (\<lambda>c. config_id c = i) (configs reg)),
                 broadcast (DriveRemoved i) reg2)))"

section \<open>Properties of the version comparison\<close>

lemma compareSemver_loop_range:
  "compareSemver_loop pa pb i \<in> {- 1, 0, 1}"
proof (induction pa pb i rule: compareSemver_loop.induct)
  case (1 pa pb i)
  show ?case
    using "1.IH" by (subst compareSemver_loop.simps) (simp add: Let_def)
qed

lemma compareSemver_loop_swap:
  "compareSemver_loop pa pb i = - compareSemver_loop pb pa i"
proof (induction pa pb i rule: compareSemver_loop.induct)
  case (1 pa pb i)
  show ?case
    using "1.IH"
    by (subst compareSemver_loop.simps, subst (2) compareSemver_loop.simps)
       (auto simp add: Let_def max.commute)
qed

lemma compareSemver_loop_same:
  "compareSemver_loop pa pa i = 0"
  using compareSemver_loop_swap [of pa pa i] by simp

text \<open>
  Padding either side with pieces that read as zero changes nothing: a missing
  component counts as 0.
\<close>

lemma part_or_zero_append_None:
  "part_or_zero (pa @ replicate k None) i = part_or_zero pa i"
  by (simp add: part_or_zero_def nth_append)

lemma length_zero_padded:
  "length parts \<le> n \<Longrightarrow> length (zero_padded n parts) = n"
  by (simp add: zero_padded_def)

lemma zero_padded_nth:
  "i < n \<Longrightarrow> length parts \<le> n \<Longrightarrow> zero_padded n parts ! i = part_or_zero parts i"
  by (auto simp add: zero_padded_def part_or_zero_def nth_append split: option.splits)

lemma compareSemver_loop_components:
  "compareSemver_loop pa pb i =
     compare_components (drop i (zero_padded (max (length pa) (length pb)) pa))
                        (drop i (zero_padded (max (length pa) (length pb)) pb))"
proof (induction pa pb i rule: compareSemver_loop.induct)
  case (1 pa pb i)
  let ?n = "max (length pa) (length pb)"
  have la: "length (zero_padded ?n pa) = ?n" and lb: "length (zero_padded ?n pb) = ?n"
    by (simp_all add: length_zero_padded)
  show ?case
  proof (cases "i < ?n")
    case True
    have "zero_padded ?n pa ! i = part_or_zero pa i"
      using True by (intro zero_padded_nth) simp_all
    then have da: "drop i (zero_padded ?n pa)
        = part_or_zero pa i # drop (Suc i) (zero_padded ?n pa)"
      using True la by (metis Cons_nth_drop_Suc)
    have "zero_padded ?n pb ! i = part_or_zero pb i"
      using True by (intro zero_padded_nth) simp_all
    then have db: "drop i (zero_padded ?n pb)
        = part_or_zero pb i # drop (Suc i) (zero_padded ?n pb)"
      using True lb by (metis Cons_nth_drop_Suc)
    have step: "compareSemver_loop pa pb i =
        (if part_or_zero pa i < part_or_zero pb i then - 1
         else if part_or_zero pb i < part_or_zero pa i then 1
         else compareSemver_loop pa pb (Suc i))"
      using True by (subst compareSemver_loop.simps) (simp add: Let_def)
    show ?thesis
    proof (cases "part_or_zero pa i < part_or_zero pb i \<or> part_or_zero pb i < part_or_zero pa i")
      case True
      then show ?thesis unfolding step da db by auto
    next
      case False
      then have "part_or_zero pa i = part_or_zero pb i" by auto
      with False "1.IH" [OF True refl refl] have
        "compareSemver_loop pa pb (Suc i) =
           compare_components (drop (Suc i) (zero_padded ?n pa))
                              (drop (Suc i) (zero_padded ?n pb))"
        by simp
      with False show ?thesis unfolding step da db by simp
    qed
  next
    case False
    then have "compareSemver_loop pa pb i = 0"
      by (subst compareSemver_loop.simps) (simp only: if_False)
    moreover from False have "?n \<le> i"
      by (simp only: not_less)
    then have "length (zero_padded ?n pa) \<le> i"
      by (simp only: la)
    then have "drop i (zero_padded ?n pa) = []"
      by (rule drop_all)
    ultimately show ?thesis by simp
  qed
qed

text \<open>
  Claim C9. \<^verbatim>\<open>compareSemver\<close> returns -1, 0 or 1; a string compares equal to
  itself; swapping the arguments negates the result; and a missing component counts
  as 0, as in \<^verbatim>\<open>compareSemver("4.12", "4.12.0") = 0\<close>. For every conversion of pieces
  to numbers, the result is the comparison, component by component, of the two lists
  of numbers filled with zeros to the length of the longer one; so \<^verbatim>\<open>"4"\<close> is below
  \<^verbatim>\<open>"4.12.0"\<close> and \<^verbatim>\<open>"4.13"\<close> is above \<^verbatim>\<open>"4.12.9"\<close>.
\<close>

theorem compareSemver_sign_laws:
  "compareSemver toNumber a b \<in> {- 1, 0, 1}
   \<and> compareSemver toNumber a a = 0
   \<and> compareSemver toNumber a b = - compareSemver toNumber b a
   \<and> compareSemver Number_digits ''4.12'' ''4.12.0'' = 0
   \<and> compareSemver toNumber a b =
       compare_components
         (zero_padded (max (length (split_dot a)) (length (split_dot b)))
            (map toNumber (split_dot a)))
         (zero_padded (max (length (split_dot a)) (length (split_dot b)))
            (map toNumber (split_dot b)))
   \<and> compareSemver Number_digits ''4'' ''4.12.0'' = - 1
   \<and> compareSemver Number_digits ''4.13'' ''4.12.9'' = 1"
proof -
  have "compareSemver Number_digits ''4.12'' ''4.12.0'' = 0" by code_simp
  moreover have "compareSemver Number_digits ''4'' ''4.12.0'' = - 1" by code_simp
  moreover have "compareSemver Number_digits ''4.13'' ''4.12.9'' = 1" by code_simp
  moreover have "compareSemver toNumber a b =
       compare_components
         (zero_padded (max (length (split_dot a)) (length (split_dot b)))
            (map toNumber (split_dot a)))
         (zero_padded (max (length (split_dot a)) (length (split_dot b)))
            (map toNumber (split_dot b)))"
    unfolding compareSemver_def
    using compareSemver_loop_components
            [of "map toNumber (split_dot a)" "map toNumber (split_dot b)" 0]
    by simp
  moreover have "compareSemver toNumber a b \<in> {- 1, 0, 1}"
    "compareSemver toNumber a a = 0"
    "compareSemver toNumber a b = - compareSemver toNumber b a"
    unfolding compareSemver_def
    using compareSemver_loop_range compareSemver_loop_same compareSemver_loop_swap
    by blast+
  ultimately show ?thesis by simp
qed

section \<open>Properties of the site validation\<close>

text \<open>
  The promise resolves exactly when all four checks pass, for every conversion and
  every network.
\<close>

lemma validateSiteVersion_resolves_iff:
  "(\<exists>v. validateSiteVersion toNumber ping siteUrl = Inr v) \<longleftrightarrow>
   (\<exists>r d. ping siteUrl = FetchResolves r \<and> ok r \<and> json r = JsonResolves d \<and> code d = 0
          \<and> 0 \<le> compareSemver toNumber (strip_pro (data d)) MIN_VERSION)"
  by (auto simp add: validateSiteVersion_def Let_def
           split: fetch_outcome.splits json_outcome.splits)

lemma validateSiteVersion_resolves_value:
  "validateSiteVersion toNumber ping siteUrl = Inr v \<Longrightarrow>
   \<exists>r d. ping siteUrl = FetchResolves r \<and> json r = JsonResolves d \<and> v = strip_pro (data d)"
  by (auto simp add: validateSiteVersion_def Let_def
           split: fetch_outcome.splits json_outcome.splits if_splits)

text \<open>
  Claim C8. The claim says that whenever the promise does not resolve it rejects
  with a \<^verbatim>\<open>ValidationError\<close> of one of the four types. A site that answers the ping
  with status 200 and a body that is not JSON passes the first two checks; then
  \<^verbatim>\<open>response.json()\<close> rejects outside every \<^verbatim>\<open>try\<close>, and the promise rejects with
  the parser's exception, which is no \<^verbatim>\<open>ValidationError\<close>.
\<close>

theorem validateSiteVersion_body_not_json:
  "validateSiteVersion Number_digits
     (\<lambda>url. FetchResolves \<lparr>ok = True, status = 200, json = JsonRejects ''SyntaxError''\<rparr>)
     ''https://example.com''
   = Inl (HostException ''SyntaxError'')"
  by (simp add: validateSiteVersion_def)

section \<open>Properties of the fetch wrapper\<close>

lemma update_absent_appends:
  "map_of h k = None \<Longrightarrow> AList.update k v h = h @ [(k, v)]"
  by (induction h) (auto split: if_splits)

lemma header_name_User_Agent:
  "header_name ''User-Agent'' = ''user-agent''"
  by code_simp

lemma getUserAgent_fresh_or_cached:
  "userAgentCache = None \<or> userAgentCache = Some (''cloudreve-desktop/'' @ version) \<Longrightarrow>
   getUserAgent version userAgentCache =
     (''cloudreve-desktop/'' @ version, Some (''cloudreve-desktop/'' @ version))"
  by (auto simp add: getUserAgent_def)

text \<open>
  Claim C10. With the cache empty or holding the agent string of this version (the
  only values \<^verbatim>\<open>getUserAgent\<close> ever stores), the wrapper calls the underlying fetch
  with the same input, with every property of \<^verbatim>\<open>init\<close> other than \<^verbatim>\<open>headers\<close> as the
  caller gave it, and with the caller's headers: untouched when they already hold a
  User-Agent under any spelling of the name, and followed by
  \<^verbatim>\<open>User-Agent: cloudreve-desktop/{version}\<close> when they do not.
\<close>

theorem fetch_adds_user_agent_only_if_absent:
  assumes "userAgentCache = None \<or> userAgentCache = Some (''cloudreve-desktop/'' @ version)"
  shows "fetch version userAgentCache input init =
     (Some (''cloudreve-desktop/'' @ version), input,
      \<lparr>headers =
         (let h0 = Headers_new (case init of None \<Rightarrow> None | Some i \<Rightarrow> headers i)
          in if Headers_has h0 ''User-Agent'' then h0
             else h0 @ [(''user-agent'', ''cloudreve-desktop/'' @ version)]),
       rest = (case init of None \<Rightarrow> Map.empty | Some i \<Rightarrow> rest i)\<rparr>)"
  by (simp add: fetch_def getUserAgent_fresh_or_cached [OF assms] Let_def Headers_has_def
        Headers_set_def header_name_User_Agent update_absent_appends)

theorem fetch_adds_user_agent_only_if_absent_witness:
  "fetch ''1.2.3'' None ''https://example.com/api''
     (Some \<lparr>headers = Some [(''Accept'', ''text/html''), (''USER-AGENT'', ''mine'')],
            rest = [''method'' \<mapsto> ''GET'']\<rparr>)
   = (Some ''cloudreve-desktop/1.2.3'', ''https://example.com/api'',
      \<lparr>headers = [(''accept'', ''text/html''), (''user-agent'', ''mine'')],
       rest = [''method'' \<mapsto> ''GET'']\<rparr>)
   \<and> fetch ''1.2.3'' (Some ''cloudreve-desktop/1.2.3'') ''https://example.com/api''
     (Some \<lparr>headers = Some [(''Accept'', ''text/html'')],
            rest = [''method'' \<mapsto> ''GET'']\<rparr>)
   = (Some ''cloudreve-desktop/1.2.3'', ''https://example.com/api'',
      \<lparr>headers = [(''accept'', ''text/html''), (''user-agent'', ''cloudreve-desktop/1.2.3'')],
       rest = [''method'' \<mapsto> ''GET'']\<rparr>)"
proof -
  have a: "Headers_new (Some [(''Accept'', ''text/html''), (''USER-AGENT'', ''mine'')])
           = [(''accept'', ''text/html''), (''user-agent'', ''mine'')]"
    by code_simp
  have b: "Headers_new (Some [(''Accept'', ''text/html'')]) = [(''accept'', ''text/html'')]"
    by code_simp
  have c: "Headers_has [(''accept'', ''text/html''), (''user-agent'', ''mine'')] ''User-Agent''"
    by code_simp
  have d: "\<not> Headers_has [(''accept'', ''text/html'')] ''User-Agent''"
    by code_simp
  show ?thesis
    using fetch_adds_user_agent_only_if_absent [of None "''1.2.3''" "''https://example.com/api''"
        "Some \<lparr>headers = Some [(''Accept'', ''text/html''), (''USER-AGENT'', ''mine'')],
               rest = [''method'' \<mapsto> ''GET'']\<rparr>"]
      fetch_adds_user_agent_only_if_absent [of "Some ''cloudreve-desktop/1.2.3''" "''1.2.3''"
        "''https://example.com/api''"
        "Some \<lparr>headers = Some [(''Accept'', ''text/html'')],
               rest = [''method'' \<mapsto> ''GET'']\<rparr>"]
    by (simp add: a b c d)
qed

section \<open>Properties of the sync direction toggle\<close>

lemma newDirection_is_direction_name:
  "newDirection checked = direction_name (if checked then OneWayUpload else TwoWay)"
  by (simp add: newDirection_def)

lemma switch_checked_previousDirection:
  "(previousDirection dirs driveId = ''one_way_upload'') = switch_checked dirs driveId"
  by (auto simp add: previousDirection_def switch_checked_def split: option.splits)

text \<open>
  Claim C6. A direction is one of the two values \<open>TwoWay\<close> and \<open>OneWayUpload\<close>, and
  so is what the switch of a drive displays. A toggle invokes \<^verbatim>\<open>set_sync_direction\<close>
  once, with the string \<^verbatim>\<open>two_way\<close> or \<^verbatim>\<open>one_way_upload\<close>. When the command fails,
  the switch of that drive displays what it displayed before the toggle, and the
  entries of the other drives are as they were; when it succeeds the switch displays
  the direction chosen.
\<close>

theorem handleSyncDirectionChange_writes_and_reverts:
  fixes st :: DrivesSection and set_sync_direction :: "string \<Rightarrow> string \<Rightarrow> bool"
    and driveId :: string and checked :: bool
  defines "st' \<equiv> handleSyncDirectionChange set_sync_direction st driveId checked"
  shows "(d = TwoWay \<or> d = OneWayUpload)
    \<and> displayed_direction (syncDirections st') driveId \<in> {TwoWay, OneWayUpload}
    \<and> invoked st' = invoked st @ [(driveId, newDirection checked)]
    \<and> newDirection checked \<in> {''two_way'', ''one_way_upload''}
    \<and> (\<not> set_sync_direction driveId (newDirection checked) \<longrightarrow>
          displayed_direction (syncDirections st') driveId
            = displayed_direction (syncDirections st) driveId
          \<and> (\<forall>other. other \<noteq> driveId \<longrightarrow>
                syncDirections st' other = syncDirections st other))
    \<and> (set_sync_direction driveId (newDirection checked) \<longrightarrow>
          switch_checked (syncDirections st') driveId = checked)"
proof -
  have "d = TwoWay \<or> d = OneWayUpload"
    by (cases d) simp_all
  moreover have "displayed_direction (syncDirections st') driveId \<in> {TwoWay, OneWayUpload}"
    by (simp add: displayed_direction_def)
  moreover have "invoked st' = invoked st @ [(driveId, newDirection checked)]"
    by (simp add: st'_def handleSyncDirectionChange_def Let_def)
  moreover have "newDirection checked \<in> {''two_way'', ''one_way_upload''}"
    by (simp add: newDirection_def)
  moreover have "displayed_direction (syncDirections st') driveId
            = displayed_direction (syncDirections st) driveId"
    if "\<not> set_sync_direction driveId (newDirection checked)"
    using that switch_checked_previousDirection [of "syncDirections st" driveId]
    by (simp add: st'_def handleSyncDirectionChange_def Let_def displayed_direction_def
          switch_checked_def)
  moreover have "syncDirections st' other = syncDirections st other"
    if "other \<noteq> driveId" for other
    using that by (simp add: st'_def handleSyncDirectionChange_def Let_def)
  moreover have "switch_checked (syncDirections st') driveId = checked"
    if "set_sync_direction driveId (newDirection checked)"
    using that
    by (simp add: st'_def handleSyncDirectionChange_def Let_def switch_checked_def
          newDirection_def)
  ultimately show ?thesis by blast
qed

theorem handleSyncDirectionChange_writes_and_reverts_witness:
  "\<not> (\<lambda>driveId direction. False) ''drive-1'' (newDirection False)
   \<and> displayed_direction
       (syncDirections
          (handleSyncDirectionChange (\<lambda>driveId direction. False)
             \<lparr>syncDirections = [''drive-1'' \<mapsto> ''one_way_upload''], invoked = []\<rparr>
             ''drive-1'' False))
       ''drive-1''
     = OneWayUpload
   \<and> invoked
       (handleSyncDirectionChange (\<lambda>driveId direction. False)
          \<lparr>syncDirections = [''drive-1'' \<mapsto> ''one_way_upload''], invoked = []\<rparr>
          ''drive-1'' False)
     = [(''drive-1'', ''two_way'')]
   \<and> (\<lambda>driveId direction. True) ''drive-1'' (newDirection True)
   \<and> switch_checked
       (syncDirections
          (handleSyncDirectionChange (\<lambda>driveId direction. True)
             \<lparr>syncDirections = Map.empty, invoked = []\<rparr> ''drive-1'' True))
       ''drive-1''"
  using handleSyncDirectionChange_writes_and_reverts
    [where d = TwoWay and set_sync_direction = "\<lambda>driveId direction. False"
       and st = "\<lparr>syncDirections = [''drive-1'' \<mapsto> ''one_way_upload''], invoked = []\<rparr>"
       and driveId = "''drive-1''" and checked = False]
    handleSyncDirectionChange_writes_and_reverts
    [where d = OneWayUpload and set_sync_direction = "\<lambda>driveId direction. True"
       and st = "\<lparr>syncDirections = Map.empty, invoked = []\<rparr>"
       and driveId = "''drive-1''" and checked = True]
  by (simp add: displayed_direction_def switch_checked_def newDirection_def)

section \<open>Properties of the durable schema\<close>

lemma distinct_values_filter:
  "distinct (filter P (map f xs)) \<Longrightarrow> distinct (filter P (map f (filter Q xs)))"
  by (induction xs) auto

lemma distinct_values_snoc:
  assumes "distinct (filter (\<lambda>x. x \<noteq> None) (map f xs))"
    and "f r = None \<or> (\<forall>r' \<in> set xs. f r' \<noteq> f r)"
  shows "distinct (filter (\<lambda>x. x \<noteq> None) (map f (xs @ [r])))"
  using assms by (auto simp add: image_iff)

lemma at_most_one_with_value:
  "distinct (filter (\<lambda>x. x \<noteq> None) (map f xs)) \<Longrightarrow>
   length (filter (\<lambda>r. f r = Some v) xs) \<le> Suc 0"
proof (induction xs)
  case Nil
  then show ?case by simp
next
  case (Cons r xs)
  show ?case
  proof (cases "f r = Some v")
    case True
    with Cons.prems have "\<forall>r' \<in> set xs. f r' \<noteq> Some v"
      by (auto simp add: image_iff)
    then have "filter (\<lambda>r. f r = Some v) xs = []"
      by (simp add: filter_empty_conv)
    with True show ?thesis by simp
  next
    case False
    with Cons show ?thesis by (auto split: if_splits)
  qed
qed

lemma insert_keeps_ok:
  assumes "sql_insert cols supplied t = Inr t'" "not_null_ok cols t" "keys_ok cols t"
  shows "not_null_ok cols t' \<and> keys_ok cols t'"
proof -
  let ?r = "stored_row cols t supplied"
  from assms(1) have nn: "\<not> list_ex (\<lambda>c. not_null c \<and> ?r (col_name c) = None) cols"
    and ky: "\<not> list_ex (\<lambda>k. ?r k \<noteq> None \<and> list_ex (\<lambda>r'. r' k = ?r k) (rows t)) (key_columns cols)"
    and t': "rows t' = rows t @ [?r]"
    by (auto simp add: sql_insert_def Let_def split: if_splits)
  have "not_null_ok cols t'"
    using nn assms(2) by (auto simp add: not_null_ok_def t' list_all_iff list_ex_iff)
  moreover have "keys_ok cols t'"
    unfolding keys_ok_def list_all_iff
  proof
    fix k assume k: "k \<in> set (key_columns cols)"
    with assms(3) have d: "distinct (filter (\<lambda>x. x \<noteq> None) (map (\<lambda>r. r k) (rows t)))"
      by (simp add: keys_ok_def list_all_iff)
    from ky k have "?r k = None \<or> (\<forall>r' \<in> set (rows t). r' k \<noteq> ?r k)"
      by (auto simp add: list_ex_iff)
    from distinct_values_snoc [where f = "\<lambda>r. r k" and xs = "rows t" and r = "?r", OF d this]
    show "distinct (filter (\<lambda>x. x \<noteq> None) (map (\<lambda>r. r k) (rows t')))"
      by (simp add: t')
  qed
  ultimately show ?thesis by simp
qed

lemma update_keeps_ok:
  assumes "sql_update cols assignments c v t = Inr t'"
  shows "not_null_ok cols t' \<and> keys_ok cols t'"
  using assms
  by (auto simp add: sql_update_def Let_def not_null_ok_def keys_ok_def list_all_iff list_ex_iff
        split: if_splits)

lemma delete_keeps_ok:
  assumes "not_null_ok cols t" "keys_ok cols t"
  shows "not_null_ok cols (sql_delete c v t) \<and> keys_ok cols (sql_delete c v t)"
  using assms
  by (auto simp add: sql_delete_def not_null_ok_def keys_ok_def list_all_iff
        intro: distinct_values_filter)

lemma reachable_ok:
  "reachable cols t \<Longrightarrow> not_null_ok cols t \<and> keys_ok cols t"
proof (induction rule: reachable.induct)
  case reachable_empty
  show ?case by (simp add: not_null_ok_def keys_ok_def empty_table_def list_all_iff)
next
  case (reachable_insert t supplied t')
  then show ?case using insert_keeps_ok by blast
next
  case (reachable_update t assignments c v t')
  then show ?case using update_keeps_ok by blast
next
  case (reachable_delete t c v)
  then show ?case using delete_keeps_ok by blast
qed


lemma drive_props_names:
  "column_names drive_props =
     [''id'', ''drive_id'', ''capacity'', ''capacity_updated_at'', ''storage_policies'',
      ''storage_policies_updated_at'', ''user_settings'', ''user_settings_updated_at'',
      ''created_at'', ''updated_at'']"
  "map col_name (filter not_null drive_props) = [''id'', ''drive_id'', ''created_at'', ''updated_at'']"
  "key_columns drive_props = [''id'', ''drive_id'']"
  "nullable_columns drive_props =
     [''capacity'', ''capacity_updated_at'', ''storage_policies'',
      ''storage_policies_updated_at'', ''user_settings'', ''user_settings_updated_at'']"
  by (simp_all add: column_names_def key_columns_def nullable_columns_def drive_props_def plain_def)

lemma not_null_ok_names:
  "not_null_ok cols t \<longleftrightarrow>
     (\<forall>r \<in> set (rows t). \<forall>n \<in> set (map col_name (filter not_null cols)). r n \<noteq> None)"
  by (auto simp add: not_null_ok_def list_all_iff)

lemma refresh_group:
  assumes nn: "not_null_ok drive_props t" and ky: "keys_ok drive_props t"
    and g: "(g, ts) \<in> {(''capacity'', ''capacity_updated_at''),
                      (''storage_policies'', ''storage_policies_updated_at''),
                      (''user_settings'', ''user_settings_updated_at'')}"
  shows "sql_update drive_props [(g, x), (ts, y)] ''drive_id'' v t =
           Inr (t\<lparr>rows := map (\<lambda>r. if r ''drive_id'' = Some v then r(g := x, ts := y) else r)
                              (rows t)\<rparr>)"
proof -
  let ?rows' = "map (\<lambda>r. if r ''drive_id'' = Some v then r(g := x, ts := y) else r) (rows t)"
  have known: "g \<in> set (column_names drive_props)" "ts \<in> set (column_names drive_props)"
    "''drive_id'' \<in> set (column_names drive_props)"
    using g by (auto simp add: drive_props_names)
  have apart: "g \<notin> set [''id'', ''drive_id'', ''created_at'', ''updated_at'']"
    "ts \<notin> set [''id'', ''drive_id'', ''created_at'', ''updated_at'']"
    using g by auto
  have same: "map (\<lambda>r. r k) ?rows' = map (\<lambda>r. r k) (rows t)"
    if "k \<in> set [''id'', ''drive_id'', ''created_at'', ''updated_at'']" for k
    using that apart by (auto simp add: comp_def)
  have rows': "map (\<lambda>r. if r ''drive_id'' = Some v then assign [(g, x), (ts, y)] r else r) (rows t)
      = ?rows'"
    by (simp add: assign_def)
  have nn': "\<not> list_ex (\<lambda>r. list_ex (\<lambda>cl. not_null cl \<and> r (col_name cl) = None) drive_props) ?rows'"
  proof -
    have "\<forall>r \<in> set ?rows'. \<forall>n \<in> set [''id'', ''drive_id'', ''created_at'', ''updated_at'']. r n \<noteq> None"
    proof (intro ballI)
      fix r n assume r: "r \<in> set ?rows'" and n: "n \<in> set [''id'', ''drive_id'', ''created_at'', ''updated_at'']"
      from r have "r n \<in> set (map (\<lambda>r. r n) ?rows')" by (simp only: set_map) blast
      then have "r n \<in> set (map (\<lambda>r. r n) (rows t))" using same [OF n] by simp
      then obtain r0 where "r0 \<in> set (rows t)" "r n = r0 n" by auto
      with nn n show "r n \<noteq> None"
        by (auto simp add: not_null_ok_names drive_props_names(2))
    qed
    then have "not_null_ok drive_props (t\<lparr>rows := ?rows'\<rparr>)"
      by (simp add: not_null_ok_names drive_props_names(2))
    then show ?thesis
      by (simp add: not_null_ok_def list_all_iff list_ex_iff)
  qed
  have ky': "\<not> list_ex (\<lambda>k. \<not> distinct (filter (\<lambda>x. x \<noteq> None) (map (\<lambda>r. r k) ?rows')))
                  (key_columns drive_props)"
  proof -
    have "distinct (filter (\<lambda>x. x \<noteq> None) (map (\<lambda>r. r k) ?rows'))"
      if "k \<in> set (key_columns drive_props)" for k
    proof -
      from that have "k \<in> set [''id'', ''drive_id'', ''created_at'', ''updated_at'']"
        by (auto simp add: drive_props_names(3))
      then have eq: "map (\<lambda>r. r k) ?rows' = map (\<lambda>r. r k) (rows t)"
        by (rule same)
      from ky that have "distinct (filter (\<lambda>x. x \<noteq> None) (map (\<lambda>r. r k) (rows t)))"
        by (simp add: keys_ok_def list_all_iff)
      then show ?thesis unfolding eq .
    qed
    then show ?thesis by (simp add: list_ex_iff)
  qed
  show ?thesis
    unfolding sql_update_def Let_def rows'
    using known nn' ky' by simp
qed

lemma first_insert:
  "sql_insert drive_props
     [(''drive_id'', Some (Text ''d1'')), (''created_at'', Some (Integer 5)),
      (''updated_at'', Some (Integer 5))] empty_table
   = Inr \<lparr>rows = [stored_row drive_props empty_table
                     [(''drive_id'', Some (Text ''d1'')), (''created_at'', Some (Integer 5)),
                      (''updated_at'', Some (Integer 5))]],
          last_rowid = 1\<rparr>"
  by (simp add: sql_insert_def drive_props_def plain_def stored_row_def column_value_def
        next_rowid_def empty_table_def rowid_after_def key_columns_def column_names_def)

text \<open>
  Claim C7. In every table the statements can build under the \<^verbatim>\<open>drive_props\<close>
  schema, at most one row holds a given \<^verbatim>\<open>drive_id\<close> (the column is a key). The
  nullable columns are the three cached groups, each followed by its own timestamp
  column; and an \<^verbatim>\<open>UPDATE\<close> that sets one group and its timestamp for a drive is
  always accepted and changes those two columns of that drive's row and nothing else,
  so the timestamps of the other groups stay as they were.
\<close>

theorem drive_props_one_record_per_drive:
  assumes "reachable drive_props t"
  shows "length (rows_with ''drive_id'' v t) \<le> 1
    \<and> ''drive_id'' \<in> set (key_columns drive_props)
    \<and> nullable_columns drive_props =
        [''capacity'', ''capacity_updated_at'', ''storage_policies'',
         ''storage_policies_updated_at'', ''user_settings'', ''user_settings_updated_at'']
    \<and> (\<forall>g ts. (g, ts) \<in> {(''capacity'', ''capacity_updated_at''),
                           (''storage_policies'', ''storage_policies_updated_at''),
                           (''user_settings'', ''user_settings_updated_at'')} \<longrightarrow>
          sql_update drive_props [(g, x), (ts, y)] ''drive_id'' v t =
            Inr (t\<lparr>rows := map (\<lambda>r. if r ''drive_id'' = Some v then r(g := x, ts := y) else r)
                               (rows t)\<rparr>))"
proof -
  from assms have ok: "not_null_ok drive_props t" "keys_ok drive_props t"
    using reachable_ok by blast+
  from ok(2) have "distinct (filter (\<lambda>x. x \<noteq> None) (map (\<lambda>r. r ''drive_id'') (rows t)))"
    by (simp add: keys_ok_def list_all_iff drive_props_names(3))
  then have "length (rows_with ''drive_id'' v t) \<le> 1"
    unfolding rows_with_def using at_most_one_with_value [of "\<lambda>r. r ''drive_id''" "rows t" v]
    by simp
  moreover have "''drive_id'' \<in> set (key_columns drive_props)"
    by (simp add: drive_props_names(3))
  moreover note drive_props_names(4)
  moreover have "sql_update drive_props [(g, x), (ts, y)] ''drive_id'' v t =
            Inr (t\<lparr>rows := map (\<lambda>r. if r ''drive_id'' = Some v then r(g := x, ts := y) else r)
                               (rows t)\<rparr>)"
    if "(g, ts) \<in> {(''capacity'', ''capacity_updated_at''),
                           (''storage_policies'', ''storage_policies_updated_at''),
                           (''user_settings'', ''user_settings_updated_at'')}" for g ts
    using refresh_group [OF ok that] .
  ultimately show ?thesis by blast
qed


theorem drive_props_one_record_per_drive_witness:
  "reachable drive_props
     \<lparr>rows = [stored_row drive_props empty_table
                [(''drive_id'', Some (Text ''d1'')), (''created_at'', Some (Integer 5)),
                 (''updated_at'', Some (Integer 5))]],
      last_rowid = 1\<rparr>
   \<and> length (rows_with ''drive_id'' (Text ''d1'')
       \<lparr>rows = [stored_row drive_props empty_table
                [(''drive_id'', Some (Text ''d1'')), (''created_at'', Some (Integer 5)),
                 (''updated_at'', Some (Integer 5))]],
      last_rowid = 1\<rparr>) = 1
   \<and> (''capacity'', ''capacity_updated_at'')
       \<in> {(''capacity'', ''capacity_updated_at''),
          (''storage_policies'', ''storage_policies_updated_at''),
          (''user_settings'', ''user_settings_updated_at'')}
   \<and> sql_update drive_props
       [(''capacity'', Some (Text ''{}'')), (''capacity_updated_at'', Some (Integer 9))]
       ''drive_id'' (Text ''d1'')
       \<lparr>rows = [stored_row drive_props empty_table
                [(''drive_id'', Some (Text ''d1'')), (''created_at'', Some (Integer 5)),
                 (''updated_at'', Some (Integer 5))]],
      last_rowid = 1\<rparr>
     = Inr (\<lparr>rows = [stored_row drive_props empty_table
                [(''drive_id'', Some (Text ''d1'')), (''created_at'', Some (Integer 5)),
                 (''updated_at'', Some (Integer 5))]],
      last_rowid = 1\<rparr>
         \<lparr>rows := map (\<lambda>r. if r ''drive_id'' = Some (Text ''d1'')
                           then r(''capacity'' := Some (Text ''{}''),
                                  ''capacity_updated_at'' := Some (Integer 9))
                           else r)
                 (rows \<lparr>rows = [stored_row drive_props empty_table
                [(''drive_id'', Some (Text ''d1'')), (''created_at'', Some (Integer 5)),
                 (''updated_at'', Some (Integer 5))]],
      last_rowid = 1\<rparr>)\<rparr>)"
proof -
  let ?t = "\<lparr>rows = [stored_row drive_props empty_table
                [(''drive_id'', Some (Text ''d1'')), (''created_at'', Some (Integer 5)),
                 (''updated_at'', Some (Integer 5))]],
      last_rowid = 1\<rparr>"
  have r: "reachable drive_props ?t"
    using reachable_insert [OF reachable_empty first_insert] .
  have "stored_row drive_props empty_table
                [(''drive_id'', Some (Text ''d1'')), (''created_at'', Some (Integer 5)),
                 (''updated_at'', Some (Integer 5))] ''drive_id'' = Some (Text ''d1'')"
    by (simp add: drive_props_def plain_def stored_row_def column_value_def)
  then have "1 \<le> length (rows_with ''drive_id'' (Text ''d1'') ?t)"
    by (simp add: rows_with_def)
  with drive_props_one_record_per_drive
         [OF r, of "Text ''d1''" "Some (Text ''{}'')" "Some (Integer 9)"] r
  show ?thesis by simp
qed

text \<open>
  Claim C4. The \<^verbatim>\<open>upload_sessions\<close> table has exactly the fourteen columns of the
  record, in this order; \<^verbatim>\<open>encrypt_metadata\<close> is the only column that may hold
  \<^verbatim>\<open>NULL\<close>; and the table has one index on each of \<^verbatim>\<open>task_id\<close>, \<^verbatim>\<open>drive_id\<close>
  and \<^verbatim>\<open>local_path\<close>. The progress list is stored as a JSON array in the text column
  \<^verbatim>\<open>chunk_progress\<close>, which is the empty array when an insert leaves it out.
\<close>

theorem upload_sessions_schema:
  "column_names upload_sessions =
     [''id'', ''task_id'', ''drive_id'', ''local_path'', ''remote_uri'', ''file_size'',
      ''chunk_size'', ''policy_type'', ''session_data'', ''chunk_progress'',
      ''encrypt_metadata'', ''expires_at'', ''created_at'', ''updated_at'']
   \<and> nullable_columns upload_sessions = [''encrypt_metadata'']
   \<and> map index_table upload_sessions_indexes
       = [''upload_sessions'', ''upload_sessions'', ''upload_sessions'']
   \<and> map index_columns upload_sessions_indexes
       = [[''task_id''], [''drive_id''], [''local_path'']]
   \<and> stored_row upload_sessions t [] ''chunk_progress'' = Some (Text ''[]'')"
  by (simp add: column_names_def nullable_columns_def upload_sessions_def plain_def
        upload_sessions_indexes_def stored_row_def column_value_def)

section \<open>Properties of the Transfer Session Store\<close>

lemma live_sessions_later:
  "now \<le> later \<Longrightarrow> length (live_sessions later d p store) \<le> length (live_sessions now d p store)"
  unfolding live_sessions_def
  by (induction store) (auto simp add: live_def)

lemma live_sessions_acknowledge:
  "length (live_sessions now d p (acknowledge_chunk t sid entry store))
   = length (live_sessions now d p store)"
  unfolding live_sessions_def acknowledge_chunk_def
  by (induction store) (auto simp add: live_def)

lemma live_sessions_delete:
  "length (live_sessions now d p (delete_session sid store)) \<le> length (live_sessions now d p store)"
  unfolding live_sessions_def delete_session_def
  by (induction store) auto

lemma live_sessions_begin:
  assumes "begin_transfer now fresh store = Inr (b, store')"
    and "length (live_sessions now d p store) \<le> 1"
  shows "length (live_sessions now d p store') \<le> 1"
proof (cases "live_sessions now (drive_id fresh) (local_path fresh) store")
  case Nil
  with assms(1) have s': "store' = store @ [fresh]"
    by (auto simp add: begin_transfer_def split: if_splits)
  show ?thesis
  proof (cases "drive_id fresh = d \<and> local_path fresh = p")
    case True
    with Nil have "live_sessions now d p store = []" by simp
    then show ?thesis by (simp add: s' live_sessions_def)
  next
    case False
    with assms(2) show ?thesis by (auto simp add: s' live_sessions_def)
  qed
next
  case (Cons s rest)
  with assms show ?thesis by (simp add: begin_transfer_def)
qed


text \<open>
  The typed record covers exactly the columns of the table, and the only value it can
  leave null is \<^verbatim>\<open>encrypt_metadata\<close>.
\<close>

lemma session_values_columns:
  "map fst (session_values encode s) = column_names upload_sessions"
  "map fst (filter (\<lambda>(n, v). v = None) (session_values encode s))
     = (if encrypt_metadata s = None then [''encrypt_metadata''] else [])"
  by (simp_all add: session_values_def column_names_def upload_sessions_def plain_def)

text \<open>
  The table itself has one key, \<^verbatim>\<open>id\<close>: it does not stop two rows of one drive and
  path, so the limit of one live session rests on the operations of the store.
\<close>

lemma upload_sessions_only_key:
  "key_columns upload_sessions = [''id'']"
  by (simp add: key_columns_def upload_sessions_def plain_def)

text \<open>
  Claim C1. In every state the store can reach, at every time, a drive and local path
  have at most one live session row.
\<close>

theorem one_live_session_per_path:
  assumes "store_reachable now store"
  shows "length (live_sessions now d p store) \<le> 1"
  using assms
proof (induction arbitrary: d p rule: store_reachable.induct)
  case (store_empty now)
  show ?case by (simp add: live_sessions_def)
next
  case (store_tick now store later)
  from live_sessions_later [OF store_tick.hyps(2)] store_tick.IH
  show ?case using le_trans by blast
next
  case (store_begin now store fresh b store')
  from live_sessions_begin [OF store_begin.hyps(2) store_begin.IH]
  show ?case .
next
  case (store_acknowledge now store sid entry)
  then show ?case by (simp add: live_sessions_acknowledge)
next
  case (store_delete now store sid)
  from live_sessions_delete [of now d p sid store] store_delete.IH [of d p]
  show ?case by simp
qed

theorem one_live_session_per_path_witness:
  "store_reachable 50
     [\<lparr>session_id = ''s1'', task_id = ''t1'', drive_id = ''d1'',
        local_path = ''/home/u/a.bin'', remote_uri = ''cloudreve://my/a.bin'',
        file_size = 4096, chunk_size = 1024, policy_type = ''local'',
        session_data = ''{}'', chunk_progress = [], encrypt_metadata = None,
        expires_at = 100, created_at = 10, updated_at = 10\<rparr>]
   \<and> length (live_sessions 50 ''d1'' ''/home/u/a.bin''
       [\<lparr>session_id = ''s1'', task_id = ''t1'', drive_id = ''d1'',
        local_path = ''/home/u/a.bin'', remote_uri = ''cloudreve://my/a.bin'',
        file_size = 4096, chunk_size = 1024, policy_type = ''local'',
        session_data = ''{}'', chunk_progress = [], encrypt_metadata = None,
        expires_at = 100, created_at = 10, updated_at = 10\<rparr>]) = 1
   \<and> begin_transfer 50
       (\<lparr>session_id = ''s1'', task_id = ''t1'', drive_id = ''d1'',
        local_path = ''/home/u/a.bin'', remote_uri = ''cloudreve://my/a.bin'',
        file_size = 4096, chunk_size = 1024, policy_type = ''local'',
        session_data = ''{}'', chunk_progress = [], encrypt_metadata = None,
        expires_at = 100, created_at = 10, updated_at = 10\<rparr>\<lparr>session_id := ''s2'', task_id := ''t2''\<rparr>)
       [\<lparr>session_id = ''s1'', task_id = ''t1'', drive_id = ''d1'',
        local_path = ''/home/u/a.bin'', remote_uri = ''cloudreve://my/a.bin'',
        file_size = 4096, chunk_size = 1024, policy_type = ''local'',
        session_data = ''{}'', chunk_progress = [], encrypt_metadata = None,
        expires_at = 100, created_at = 10, updated_at = 10\<rparr>]
     = Inr (Resumed \<lparr>session_id = ''s1'', task_id = ''t1'', drive_id = ''d1'',
        local_path = ''/home/u/a.bin'', remote_uri = ''cloudreve://my/a.bin'',
        file_size = 4096, chunk_size = 1024, policy_type = ''local'',
        session_data = ''{}'', chunk_progress = [], encrypt_metadata = None,
        expires_at = 100, created_at = 10, updated_at = 10\<rparr>,
         [\<lparr>session_id = ''s1'', task_id = ''t1'', drive_id = ''d1'',
        local_path = ''/home/u/a.bin'', remote_uri = ''cloudreve://my/a.bin'',
        file_size = 4096, chunk_size = 1024, policy_type = ''local'',
        session_data = ''{}'', chunk_progress = [], encrypt_metadata = None,
        expires_at = 100, created_at = 10, updated_at = 10\<rparr>])"
proof -
  let ?s = "\<lparr>session_id = ''s1'', task_id = ''t1'', drive_id = ''d1'',
        local_path = ''/home/u/a.bin'', remote_uri = ''cloudreve://my/a.bin'',
        file_size = 4096, chunk_size = 1024, policy_type = ''local'',
        session_data = ''{}'', chunk_progress = [], encrypt_metadata = None,
        expires_at = 100, created_at = 10, updated_at = 10\<rparr>"
  have b: "begin_transfer 10 ?s [] = Inr (Created ?s, [?s])"
    by (simp add: begin_transfer_def live_sessions_def)
  have r: "store_reachable 50 [?s]"
    by (rule store_tick [OF store_begin [OF store_empty b]]) simp
  have l: "live_sessions 50 ''d1'' ''/home/u/a.bin'' [?s] = [?s]"
    by (simp add: live_sessions_def live_def)
  have "begin_transfer 50 (?s\<lparr>session_id := ''s2'', task_id := ''t2''\<rparr>) [?s]
      = Inr (Resumed ?s, [?s])"
    by (simp add: begin_transfer_def l)
  with one_live_session_per_path [OF r, of "''d1''" "''/home/u/a.bin''"] r l
  show ?thesis by simp
qed

section \<open>Properties of the conflict state\<close>

text \<open>
  Claim C2, as stated, fails: the claim lists three transitions as the only ones, and
  the success of an override's upload takes \<open>Override\<close> back to no conflict, which is
  none of the three.
\<close>

theorem conflict_state_override_returns_to_none:
  "conflict_step UploadSucceeded Override = NoConflict
   \<and> Override \<noteq> NoConflict
   \<and> (Override, NoConflict) \<notin> listed_transitions"
  by (simp add: listed_transitions_def)

text \<open>
  Claim C2, amended. The stored value is \<^verbatim>\<open>NULL\<close>, \<^verbatim>\<open>'pending'\<close> or \<^verbatim>\<open>'override'\<close>.
  Every operation leaves the state as it is or performs one of four transitions: the
  three of the claim, and \<open>Override\<close> to none after the override's upload succeeded.
  Each transition belongs to one operation. No conflict is left only for \<open>Pending\<close>,
  by a reconciliation that finds both copies changed. A pending conflict is left only
  by an explicit override (to \<open>Override\<close>) or by a reconciliation that no longer
  finds both copies changed (to none). \<open>Override\<close> is left only by the success of
  the upload (to none): reconciliation and a repeated override leave it alone.
\<close>

theorem conflict_step_transitions:
  "conflict_state_column s \<in> {None, Some ''pending'', Some ''override''}
   \<and> (conflict_step e s = s \<or> (s, conflict_step e s) \<in> resolver_transitions)
   \<and> (conflict_step e Pending \<noteq> Pending \<longrightarrow>
        (e = ExplicitOverride \<and> conflict_step e Pending = Override)
        \<or> ((\<exists>local_changed remote_changed.
               e = Reconcile local_changed remote_changed
               \<and> \<not> (local_changed \<and> remote_changed))
            \<and> conflict_step e Pending = NoConflict))
   \<and> (conflict_step e s = Pending \<longrightarrow>
        s = Pending \<or> (s = NoConflict \<and> e = Reconcile True True))
   \<and> (conflict_step e Override \<noteq> Override \<longrightarrow>
        e = UploadSucceeded \<and> conflict_step e Override = NoConflict)
   \<and> (conflict_step e NoConflict \<noteq> NoConflict \<longrightarrow>
        e = Reconcile True True \<and> conflict_step e NoConflict = Pending)
   \<and> conflict_step (Reconcile True True) NoConflict = Pending
   \<and> conflict_step ExplicitOverride Pending = Override
   \<and> conflict_step (Reconcile l r) Pending = (if l \<and> r then Pending else NoConflict)
   \<and> conflict_step UploadSucceeded Override = NoConflict
   \<and> conflict_step (Reconcile l r) Override = Override
   \<and> conflict_step ExplicitOverride Override = Override"
proof -
  have "conflict_state_column s \<in> {None, Some ''pending'', Some ''override''}"
    by (cases s) simp_all
  moreover have "conflict_step e s = s \<or> (s, conflict_step e s) \<in> resolver_transitions"
    by (cases "(e, s)" rule: conflict_step.cases)
       (auto simp add: resolver_transitions_def listed_transitions_def)
  moreover have "conflict_step e Pending \<noteq> Pending \<longrightarrow>
        (e = ExplicitOverride \<and> conflict_step e Pending = Override)
        \<or> ((\<exists>local_changed remote_changed.
               e = Reconcile local_changed remote_changed
               \<and> \<not> (local_changed \<and> remote_changed))
            \<and> conflict_step e Pending = NoConflict)"
    by (cases e) (auto split: if_splits)
  moreover have "conflict_step e s = Pending \<longrightarrow>
        s = Pending \<or> (s = NoConflict \<and> e = Reconcile True True)"
    by (cases "(e, s)" rule: conflict_step.cases) (auto split: if_splits)
  moreover have "conflict_step e Override \<noteq> Override \<longrightarrow>
        e = UploadSucceeded \<and> conflict_step e Override = NoConflict"
    by (cases e) simp_all
  moreover have "conflict_step e NoConflict \<noteq> NoConflict \<longrightarrow>
        e = Reconcile True True \<and> conflict_step e NoConflict = Pending"
    by (cases e) (auto split: if_splits)
  ultimately show ?thesis by simp
qed

theorem conflict_step_transitions_witness:
  "conflict_step (Reconcile True False) Pending \<noteq> Pending
   \<and> conflict_step (Reconcile True False) Pending = NoConflict
   \<and> (Pending, conflict_step (Reconcile True False) Pending) \<in> resolver_transitions
   \<and> conflict_step (Reconcile True True) NoConflict = Pending
   \<and> (NoConflict, conflict_step (Reconcile True True) NoConflict) \<in> resolver_transitions
   \<and> conflict_step (Reconcile True True) NoConflict \<noteq> NoConflict
   \<and> conflict_step UploadSucceeded Override \<noteq> Override
   \<and> conflict_step UploadSucceeded Override = NoConflict"
  using conflict_step_transitions [of Pending "Reconcile True False"]
    conflict_step_transitions [of NoConflict "Reconcile True True"]
    conflict_step_transitions [of Override UploadSucceeded]
  by simp

section \<open>Properties of the Drive Registry\<close>

lemma persist_cases:
  "persist writable reg = Inr reg2 \<longleftrightarrow> writable (configs reg) \<and> reg2 = reg\<lparr>durable := configs reg\<rparr>"
  "persist writable reg = Inl e \<longleftrightarrow> \<not> writable (configs reg) \<and> e = PersistFailed"
  by (auto simp add: persist_def)

lemma remove_changes_set:
  "i \<in> set (map config_id cs) \<Longrightarrow> filter (\<lambda>c. config_id c \<noteq> i) cs \<noteq> cs"
  by (auto simp add: filter_id_conv)

text \<open>
  Claim C3. \<^verbatim>\<open>add\<close> with an id the registry already holds fails with
  \<open>AlreadyExists\<close>; \<^verbatim>\<open>update\<close> and \<^verbatim>\<open>remove\<close> with an id it does not hold fail
  with \<open>NotFound\<close>. In each case the registry (the set in memory, the durable set and
  the events) is left as it was, and these are the only cases with these errors.
\<close>

theorem registry_rejects_duplicate_and_unknown:
  "(has_drive reg (config_id config) \<longrightarrow>
      add_drive writable config reg = (Inl AlreadyExists, reg))
   \<and> (\<not> has_drive reg i \<longrightarrow>
      update_drive writable i config reg = (Inl NotFound, reg)
      \<and> remove_drive writable i reg = (Inl NotFound, reg))
   \<and> (fst (add_drive writable config reg) = Inl AlreadyExists) = has_drive reg (config_id config)
   \<and> (fst (update_drive writable i config reg) = Inl NotFound) = (\<not> has_drive reg i)
   \<and> (fst (remove_drive writable i reg) = Inl NotFound) = (\<not> has_drive reg i)"
  by (auto simp add: add_drive_def update_drive_def remove_drive_def Let_def persist_def)


theorem registry_rejects_duplicate_and_unknown_witness:
  "has_drive \<lparr>configs = [\<lparr>config_id = ''d1'', name = ''Work'', instance_url = ''https://cloud.example'',
        local_root = ''/home/u/Work'', remote_root = ''cloudreve://my'',
        direction = TwoWay, enabled = True, drive_status = Active,
        credential = ''token''\<rparr>], durable = [\<lparr>config_id = ''d1'', name = ''Work'', instance_url = ''https://cloud.example'',
        local_root = ''/home/u/Work'', remote_root = ''cloudreve://my'',
        direction = TwoWay, enabled = True, drive_status = Active,
        credential = ''token''\<rparr>], events = []\<rparr> ''d1''
   \<and> \<not> has_drive \<lparr>configs = [\<lparr>config_id = ''d1'', name = ''Work'', instance_url = ''https://cloud.example'',
        local_root = ''/home/u/Work'', remote_root = ''cloudreve://my'',
        direction = TwoWay, enabled = True, drive_status = Active,
        credential = ''token''\<rparr>], durable = [\<lparr>config_id = ''d1'', name = ''Work'', instance_url = ''https://cloud.example'',
        local_root = ''/home/u/Work'', remote_root = ''cloudreve://my'',
        direction = TwoWay, enabled = True, drive_status = Active,
        credential = ''token''\<rparr>], events = []\<rparr> ''d2''
   \<and> add_drive (\<lambda>set. True) \<lparr>config_id = ''d1'', name = ''Work'', instance_url = ''https://cloud.example'',
        local_root = ''/home/u/Work'', remote_root = ''cloudreve://my'',
        direction = TwoWay, enabled = True, drive_status = Active,
        credential = ''token''\<rparr> \<lparr>configs = [\<lparr>config_id = ''d1'', name = ''Work'', instance_url = ''https://cloud.example'',
        local_root = ''/home/u/Work'', remote_root = ''cloudreve://my'',
        direction = TwoWay, enabled = True, drive_status = Active,
        credential = ''token''\<rparr>], durable = [\<lparr>config_id = ''d1'', name = ''Work'', instance_url = ''https://cloud.example'',
        local_root = ''/home/u/Work'', remote_root = ''cloudreve://my'',
        direction = TwoWay, enabled = True, drive_status = Active,
        credential = ''token''\<rparr>], events = []\<rparr>
     = (Inl AlreadyExists, \<lparr>configs = [\<lparr>config_id = ''d1'', name = ''Work'', instance_url = ''https://cloud.example'',
        local_root = ''/home/u/Work'', remote_root = ''cloudreve://my'',
        direction = TwoWay, enabled = True, drive_status = Active,
        credential = ''token''\<rparr>], durable = [\<lparr>config_id = ''d1'', name = ''Work'', instance_url = ''https://cloud.example'',
        local_root = ''/home/u/Work'', remote_root = ''cloudreve://my'',
        direction = TwoWay, enabled = True, drive_status = Active,
        credential = ''token''\<rparr>], events = []\<rparr>)
   \<and> update_drive (\<lambda>set. True) ''d2'' \<lparr>config_id = ''d1'', name = ''Work'', instance_url = ''https://cloud.example'',
        local_root = ''/home/u/Work'', remote_root = ''cloudreve://my'',
        direction = TwoWay, enabled = True, drive_status = Active,
        credential = ''token''\<rparr> \<lparr>configs = [\<lparr>config_id = ''d1'', name = ''Work'', instance_url = ''https://cloud.example'',
        local_root = ''/home/u/Work'', remote_root = ''cloudreve://my'',
        direction = TwoWay, enabled = True, drive_status = Active,
        credential = ''token''\<rparr>], durable = [\<lparr>config_id = ''d1'', name = ''Work'', instance_url = ''https://cloud.example'',
        local_root = ''/home/u/Work'', remote_root = ''cloudreve://my'',
        direction = TwoWay, enabled = True, drive_status = Active,
        credential = ''token''\<rparr>], events = []\<rparr>
     = (Inl NotFound, \<lparr>configs = [\<lparr>config_id = ''d1'', name = ''Work'', instance_url = ''https://cloud.example'',
        local_root = ''/home/u/Work'', remote_root = ''cloudreve://my'',
        direction = TwoWay, enabled = True, drive_status = Active,
        credential = ''token''\<rparr>], durable = [\<lparr>config_id = ''d1'', name = ''Work'', instance_url = ''https://cloud.example'',
        local_root = ''/home/u/Work'', remote_root = ''cloudreve://my'',
        direction = TwoWay, enabled = True, drive_status = Active,
        credential = ''token''\<rparr>], events = []\<rparr>)
   \<and> remove_drive (\<lambda>set. True) ''d2'' \<lparr>configs = [\<lparr>config_id = ''d1'', name = ''Work'', instance_url = ''https://cloud.example'',
        local_root = ''/home/u/Work'', remote_root = ''cloudreve://my'',
        direction = TwoWay, enabled = True, drive_status = Active,
        credential = ''token''\<rparr>], durable = [\<lparr>config_id = ''d1'', name = ''Work'', instance_url = ''https://cloud.example'',
        local_root = ''/home/u/Work'', remote_root = ''cloudreve://my'',
        direction = TwoWay, enabled = True, drive_status = Active,
        credential = ''token''\<rparr>], events = []\<rparr>
     = (Inl NotFound, \<lparr>configs = [\<lparr>config_id = ''d1'', name = ''Work'', instance_url = ''https://cloud.example'',
        local_root = ''/home/u/Work'', remote_root = ''cloudreve://my'',
        direction = TwoWay, enabled = True, drive_status = Active,
        credential = ''token''\<rparr>], durable = [\<lparr>config_id = ''d1'', name = ''Work'', instance_url = ''https://cloud.example'',
        local_root = ''/home/u/Work'', remote_root = ''cloudreve://my'',
        direction = TwoWay, enabled = True, drive_status = Active,
        credential = ''token''\<rparr>], events = []\<rparr>)"
proof -
  let ?reg = "\<lparr>configs = [\<lparr>config_id = ''d1'', name = ''Work'', instance_url = ''https://cloud.example'',
        local_root = ''/home/u/Work'', remote_root = ''cloudreve://my'',
        direction = TwoWay, enabled = True, drive_status = Active,
        credential = ''token''\<rparr>], durable = [\<lparr>config_id = ''d1'', name = ''Work'', instance_url = ''https://cloud.example'',
        local_root = ''/home/u/Work'', remote_root = ''cloudreve://my'',
        direction = TwoWay, enabled = True, drive_status = Active,
        credential = ''token''\<rparr>], events = []\<rparr>"
  have h: "has_drive ?reg ''d1''" "\<not> has_drive ?reg ''d2''"
    by (simp_all add: has_drive_def)
  from registry_rejects_duplicate_and_unknown
         [where reg = ?reg and config = "\<lparr>config_id = ''d1'', name = ''Work'', instance_url = ''https://cloud.example'',
        local_root = ''/home/u/Work'', remote_root = ''cloudreve://my'',
        direction = TwoWay, enabled = True, drive_status = Active,
        credential = ''token''\<rparr>"
            and writable = "\<lambda>set. True" and i = "''d2''"] h
  show ?thesis by simp
qed

text \<open>
  Claim C5. When \<^verbatim>\<open>add\<close>, \<^verbatim>\<open>update\<close> or \<^verbatim>\<open>remove\<close> returns success, the durable
  set is the full configuration set after the mutation, and the last event broadcast is
  the one of the mutation (\<open>DriveAdded\<close>, \<open>DriveUpdated\<close>, \<open>DriveRemoved\<close>). After
  \<^verbatim>\<open>add\<close> and \<^verbatim>\<open>remove\<close> that set differs from the one before the mutation.
\<close>

theorem registry_success_is_persisted_and_announced:
  "(add_drive writable config reg = (Inr r, reg') \<longrightarrow>
      r = config_id config
      \<and> configs reg' = configs reg @ [config]
      \<and> durable reg' = configs reg'
      \<and> durable reg' \<noteq> configs reg
      \<and> events reg' = events reg @ [DriveAdded (config_id config) (name config)])
   \<and> (update_drive writable i config reg = (Inr u, reg') \<longrightarrow>
      durable reg' = configs reg'
      \<and> events reg' = events reg @ [DriveUpdated i])
   \<and> (remove_drive writable i reg = (Inr removed, reg') \<longrightarrow>
      configs reg' = filter (\<lambda>c. config_id c \<noteq> i) (configs reg)
      \<and> durable reg' = configs reg'
      \<and> durable reg' \<noteq> configs reg
      \<and> events reg' = events reg @ [DriveRemoved i])"
proof -
  have a: "r = config_id config
      \<and> configs reg' = configs reg @ [config]
      \<and> durable reg' = configs reg'
      \<and> durable reg' \<noteq> configs reg
      \<and> events reg' = events reg @ [DriveAdded (config_id config) (name config)]"
    if "add_drive writable config reg = (Inr r, reg')"
    using that
    by (auto simp add: add_drive_def Let_def persist_def broadcast_def split: if_splits)
  have b: "durable reg' = configs reg' \<and> events reg' = events reg @ [DriveUpdated i]"
    if "update_drive writable i config reg = (Inr u, reg')"
    using that
    by (auto simp add: update_drive_def Let_def persist_def broadcast_def split: if_splits)
  have c: "configs reg' = filter (\<lambda>c. config_id c \<noteq> i) (configs reg)
      \<and> durable reg' = configs reg'
      \<and> durable reg' \<noteq> configs reg
      \<and> events reg' = events reg @ [DriveRemoved i]"
    if "remove_drive writable i reg = (Inr removed, reg')"
    using that remove_changes_set [of i "configs reg"]
    by (auto simp add: remove_drive_def Let_def persist_def broadcast_def has_drive_def
          split: if_splits)
  from a b c show ?thesis by blast
qed

theorem registry_success_is_persisted_and_announced_witness:
  "add_drive (\<lambda>set. True) \<lparr>config_id = ''d1'', name = ''Work'', instance_url = ''https://cloud.example'',
        local_root = ''/home/u/Work'', remote_root = ''cloudreve://my'',
        direction = TwoWay, enabled = True, drive_status = Active,
        credential = ''token''\<rparr> \<lparr>configs = [], durable = [], events = []\<rparr>
     = (Inr ''d1'', \<lparr>configs = [\<lparr>config_id = ''d1'', name = ''Work'', instance_url = ''https://cloud.example'',
        local_root = ''/home/u/Work'', remote_root = ''cloudreve://my'',
        direction = TwoWay, enabled = True, drive_status = Active,
        credential = ''token''\<rparr>], durable = [\<lparr>config_id = ''d1'', name = ''Work'', instance_url = ''https://cloud.example'',
        local_root = ''/home/u/Work'', remote_root = ''cloudreve://my'',
        direction = TwoWay, enabled = True, drive_status = Active,
        credential = ''token''\<rparr>],
         events = [DriveAdded ''d1'' ''Work'']\<rparr>)
   \<and> durable \<lparr>configs = [\<lparr>config_id = ''d1'', name = ''Work'', instance_url = ''https://cloud.example'',
        local_root = ''/home/u/Work'', remote_root = ''cloudreve://my'',
        direction = TwoWay, enabled = True, drive_status = Active,
        credential = ''token''\<rparr>], durable = [\<lparr>config_id = ''d1'', name = ''Work'', instance_url = ''https://cloud.example'',
        local_root = ''/home/u/Work'', remote_root = ''cloudreve://my'',
        direction = TwoWay, enabled = True, drive_status = Active,
        credential = ''token''\<rparr>],
         events = [DriveAdded ''d1'' ''Work'']\<rparr> = [\<lparr>config_id = ''d1'', name = ''Work'', instance_url = ''https://cloud.example'',
        local_root = ''/home/u/Work'', remote_root = ''cloudreve://my'',
        direction = TwoWay, enabled = True, drive_status = Active,
        credential = ''token''\<rparr>]
   \<and> update_drive (\<lambda>set. True) ''d1'' \<lparr>config_id = ''d1'', name = ''Work'', instance_url = ''https://cloud.example'',
        local_root = ''/home/u/Work'', remote_root = ''cloudreve://my'',
        direction = TwoWay, enabled = False, drive_status = Active,
        credential = ''token''\<rparr> \<lparr>configs = [\<lparr>config_id = ''d1'', name = ''Work'', instance_url = ''https://cloud.example'',
        local_root = ''/home/u/Work'', remote_root = ''cloudreve://my'',
        direction = TwoWay, enabled = True, drive_status = Active,
        credential = ''token''\<rparr>], durable = [\<lparr>config_id = ''d1'', name = ''Work'', instance_url = ''https://cloud.example'',
        local_root = ''/home/u/Work'', remote_root = ''cloudreve://my'',
        direction = TwoWay, enabled = True, drive_status = Active,
        credential = ''token''\<rparr>],
         events = [DriveAdded ''d1'' ''Work'']\<rparr>
     = (Inr (), \<lparr>configs = [\<lparr>config_id = ''d1'', name = ''Work'', instance_url = ''https://cloud.example'',
        local_root = ''/home/u/Work'', remote_root = ''cloudreve://my'',
        direction = TwoWay, enabled = False, drive_status = Active,
        credential = ''token''\<rparr>], durable = [\<lparr>config_id = ''d1'', name = ''Work'', instance_url = ''https://cloud.example'',
        local_root = ''/home/u/Work'', remote_root = ''cloudreve://my'',
        direction = TwoWay, enabled = False, drive_status = Active,
        credential = ''token''\<rparr>],
         events = [DriveAdded ''d1'' ''Work'', DriveUpdated ''d1'']\<rparr>)
   \<and> durable \<lparr>configs = [\<lparr>config_id = ''d1'', name = ''Work'', instance_url = ''https://cloud.example'',
        local_root = ''/home/u/Work'', remote_root = ''cloudreve://my'',
        direction = TwoWay, enabled = False, drive_status = Active,
        credential = ''token''\<rparr>], durable = [\<lparr>config_id = ''d1'', name = ''Work'', instance_url = ''https://cloud.example'',
        local_root = ''/home/u/Work'', remote_root = ''cloudreve://my'',
        direction = TwoWay, enabled = False, drive_status = Active,
        credential = ''token''\<rparr>],
         events = [DriveAdded ''d1'' ''Work'', DriveUpdated ''d1'']\<rparr> = [\<lparr>config_id = ''d1'', name = ''Work'', instance_url = ''https://cloud.example'',
        local_root = ''/home/u/Work'', remote_root = ''cloudreve://my'',
        direction = TwoWay, enabled = False, drive_status = Active,
        credential = ''token''\<rparr>]
   \<and> remove_drive (\<lambda>set. True) ''d1'' \<lparr>configs = [\<lparr>config_id = ''d1'', name = ''Work'', instance_url = ''https://cloud.example'',
        local_root = ''/home/u/Work'', remote_root = ''cloudreve://my'',
        direction = TwoWay, enabled = True, drive_status = Active,
        credential = ''token''\<rparr>], durable = [\<lparr>config_id = ''d1'', name = ''Work'', instance_url = ''https://cloud.example'',
        local_root = ''/home/u/Work'', remote_root = ''cloudreve://my'',
        direction = TwoWay, enabled = True, drive_status = Active,
        credential = ''token''\<rparr>],
         events = [DriveAdded ''d1'' ''Work'']\<rparr>
     = (Inr (Some \<lparr>config_id = ''d1'', name = ''Work'', instance_url = ''https://cloud.example'',
        local_root = ''/home/u/Work'', remote_root = ''cloudreve://my'',
        direction = TwoWay, enabled = True, drive_status = Active,
        credential = ''token''\<rparr>), \<lparr>configs = [], durable = [],
         events = [DriveAdded ''d1'' ''Work'', DriveRemoved ''d1'']\<rparr>)
   \<and> durable \<lparr>configs = [], durable = [],
         events = [DriveAdded ''d1'' ''Work'', DriveRemoved ''d1'']\<rparr> = []"
proof -
  have h1: "add_drive (\<lambda>set. True) \<lparr>config_id = ''d1'', name = ''Work'', instance_url = ''https://cloud.example'',
        local_root = ''/home/u/Work'', remote_root = ''cloudreve://my'',
        direction = TwoWay, enabled = True, drive_status = Active,
        credential = ''token''\<rparr> \<lparr>configs = [], durable = [], events = []\<rparr>
     = (Inr ''d1'', \<lparr>configs = [\<lparr>config_id = ''d1'', name = ''Work'', instance_url = ''https://cloud.example'',
        local_root = ''/home/u/Work'', remote_root = ''cloudreve://my'',
        direction = TwoWay, enabled = True, drive_status = Active,
        credential = ''token''\<rparr>], durable = [\<lparr>config_id = ''d1'', name = ''Work'', instance_url = ''https://cloud.example'',
        local_root = ''/home/u/Work'', remote_root = ''cloudreve://my'',
        direction = TwoWay, enabled = True, drive_status = Active,
        credential = ''token''\<rparr>],
         events = [DriveAdded ''d1'' ''Work'']\<rparr>)"
    by (simp add: add_drive_def has_drive_def persist_def broadcast_def)
  have h2: "update_drive (\<lambda>set. True) ''d1'' \<lparr>config_id = ''d1'', name = ''Work'', instance_url = ''https://cloud.example'',
        local_root = ''/home/u/Work'', remote_root = ''cloudreve://my'',
        direction = TwoWay, enabled = False, drive_status = Active,
        credential = ''token''\<rparr> \<lparr>configs = [\<lparr>config_id = ''d1'', name = ''Work'', instance_url = ''https://cloud.example'',
        local_root = ''/home/u/Work'', remote_root = ''cloudreve://my'',
        direction = TwoWay, enabled = True, drive_status = Active,
        credential = ''token''\<rparr>], durable = [\<lparr>config_id = ''d1'', name = ''Work'', instance_url = ''https://cloud.example'',
        local_root = ''/home/u/Work'', remote_root = ''cloudreve://my'',
        direction = TwoWay, enabled = True, drive_status = Active,
        credential = ''token''\<rparr>],
         events = [DriveAdded ''d1'' ''Work'']\<rparr>
     = (Inr (), \<lparr>configs = [\<lparr>config_id = ''d1'', name = ''Work'', instance_url = ''https://cloud.example'',
        local_root = ''/home/u/Work'', remote_root = ''cloudreve://my'',
        direction = TwoWay, enabled = False, drive_status = Active,
        credential = ''token''\<rparr>], durable = [\<lparr>config_id = ''d1'', name = ''Work'', instance_url = ''https://cloud.example'',
        local_root = ''/home/u/Work'', remote_root = ''cloudreve://my'',
        direction = TwoWay, enabled = False, drive_status = Active,
        credential = ''token''\<rparr>],
         events = [DriveAdded ''d1'' ''Work'', DriveUpdated ''d1'']\<rparr>)"
    by (simp add: update_drive_def has_drive_def persist_def broadcast_def)
  have h3: "remove_drive (\<lambda>set. True) ''d1'' \<lparr>configs = [\<lparr>config_id = ''d1'', name = ''Work'', instance_url = ''https://cloud.example'',
        local_root = ''/home/u/Work'', remote_root = ''cloudreve://my'',
        direction = TwoWay, enabled = True, drive_status = Active,
        credential = ''token''\<rparr>], durable = [\<lparr>config_id = ''d1'', name = ''Work'', instance_url = ''https://cloud.example'',
        local_root = ''/home/u/Work'', remote_root = ''cloudreve://my'',
        direction = TwoWay, enabled = True, drive_status = Active,
        credential = ''token''\<rparr>],
         events = [DriveAdded ''d1'' ''Work'']\<rparr>
     = (Inr (Some \<lparr>config_id = ''d1'', name = ''Work'', instance_url = ''https://cloud.example'',
        local_root = ''/home/u/Work'', remote_root = ''cloudreve://my'',
        direction = TwoWay, enabled = True, drive_status = Active,
        credential = ''token''\<rparr>), \<lparr>configs = [], durable = [],
         events = [DriveAdded ''d1'' ''Work'', DriveRemoved ''d1'']\<rparr>)"
    by (simp add: remove_drive_def has_drive_def persist_def broadcast_def)
  from registry_success_is_persisted_and_announced
         [where writable = "\<lambda>set. True" and config = "\<lparr>config_id = ''d1'', name = ''Work'', instance_url = ''https://cloud.example'',
        local_root = ''/home/u/Work'', remote_root = ''cloudreve://my'',
        direction = TwoWay, enabled = True, drive_status = Active,
        credential = ''token''\<rparr>"
            and reg = "\<lparr>configs = [], durable = [], events = []\<rparr>" and r = "''d1''"
            and reg' = "\<lparr>configs = [\<lparr>config_id = ''d1'', name = ''Work'', instance_url = ''https://cloud.example'',
        local_root = ''/home/u/Work'', remote_root = ''cloudreve://my'',
        direction = TwoWay, enabled = True, drive_status = Active,
        credential = ''token''\<rparr>], durable = [\<lparr>config_id = ''d1'', name = ''Work'', instance_url = ''https://cloud.example'',
        local_root = ''/home/u/Work'', remote_root = ''cloudreve://my'',
        direction = TwoWay, enabled = True, drive_status = Active,
        credential = ''token''\<rparr>],
         events = [DriveAdded ''d1'' ''Work'']\<rparr>"]
       registry_success_is_persisted_and_announced
         [where writable = "\<lambda>set. True" and config = "\<lparr>config_id = ''d1'', name = ''Work'', instance_url = ''https://cloud.example'',
        local_root = ''/home/u/Work'', remote_root = ''cloudreve://my'',
        direction = TwoWay, enabled = False, drive_status = Active,
        credential = ''token''\<rparr>"
            and reg = "\<lparr>configs = [\<lparr>config_id = ''d1'', name = ''Work'', instance_url = ''https://cloud.example'',
        local_root = ''/home/u/Work'', remote_root = ''cloudreve://my'',
        direction = TwoWay, enabled = True, drive_status = Active,
        credential = ''token''\<rparr>], durable = [\<lparr>config_id = ''d1'', name = ''Work'', instance_url = ''https://cloud.example'',
        local_root = ''/home/u/Work'', remote_root = ''cloudreve://my'',
        direction = TwoWay, enabled = True, drive_status = Active,
        credential = ''token''\<rparr>],
         events = [DriveAdded ''d1'' ''Work'']\<rparr>" and i = "''d1''" and u = "()"
            and reg' = "\<lparr>configs = [\<lparr>config_id = ''d1'', name = ''Work'', instance_url = ''https://cloud.example'',
        local_root = ''/home/u/Work'', remote_root = ''cloudreve://my'',
        direction = TwoWay, enabled = False, drive_status = Active,
        credential = ''token''\<rparr>], durable = [\<lparr>config_id = ''d1'', name = ''Work'', instance_url = ''https://cloud.example'',
        local_root = ''/home/u/Work'', remote_root = ''cloudreve://my'',
        direction = TwoWay, enabled = False, drive_status = Active,
        credential = ''token''\<rparr>],
         events = [DriveAdded ''d1'' ''Work'', DriveUpdated ''d1'']\<rparr>"]
       registry_success_is_persisted_and_announced
         [where writable = "\<lambda>set. True"
            and reg = "\<lparr>configs = [\<lparr>config_id = ''d1'', name = ''Work'', instance_url = ''https://cloud.example'',
        local_root = ''/home/u/Work'', remote_root = ''cloudreve://my'',
        direction = TwoWay, enabled = True, drive_status = Active,
        credential = ''token''\<rparr>], durable = [\<lparr>config_id = ''d1'', name = ''Work'', instance_url = ''https://cloud.example'',
        local_root = ''/home/u/Work'', remote_root = ''cloudreve://my'',
        direction = TwoWay, enabled = True, drive_status = Active,
        credential = ''token''\<rparr>],
         events = [DriveAdded ''d1'' ''Work'']\<rparr>" and i = "''d1''" and removed = "Some \<lparr>config_id = ''d1'', name = ''Work'', instance_url = ''https://cloud.example'',
        local_root = ''/home/u/Work'', remote_root = ''cloudreve://my'',
        direction = TwoWay, enabled = True, drive_status = Active,
        credential = ''token''\<rparr>"
            and reg' = "\<lparr>configs = [], durable = [],
         events = [DriveAdded ''d1'' ''Work'', DriveRemoved ''d1'']\<rparr>"]
       h1 h2 h3
  show ?thesis by simp
qed

end
